theory Spec2Isabelle
  imports Main "HOL-Library.Sublist" "HOL-Library.AList" "HOL-Library.List_Lexorder"
begin

section \<open>Python strings\<close>

text \<open>
  A Python \<open>str\<close> is a sequence of Unicode code points; it is modelled as a list of
  natural numbers, one per code point. \<open>asc\<close> turns an ASCII literal into such a list.
  The Cyrillic literals of the source are written out as code-point lists.
\<close>

type_synonym ustring = "nat list"

definition asc :: "string \<Rightarrow> ustring" where
  "asc s = map of_char s"

text \<open>
  \<open>str.isspace\<close> for one code point: the characters Python's \<open>split()\<close> and \<open>strip()\<close>
  (called without arguments) treat as whitespace.
\<close>

definition py_isspace :: "nat \<Rightarrow> bool" where
  "py_isspace c =
     ((9 \<le> c \<and> c \<le> 13) \<or> (28 \<le> c \<and> c \<le> 32) \<or> c = 133 \<or> c = 160 \<or> c = 5760 \<or>
      (8192 \<le> c \<and> c \<le> 8202) \<or> c = 8232 \<or> c = 8233 \<or> c = 8239 \<or> c = 8287 \<or> c = 12288)"

definition py_strip :: "ustring \<Rightarrow> ustring" where
  "py_strip s = rev (dropWhile py_isspace (rev (dropWhile py_isspace s)))"

text \<open>\<open>s.rstrip('.')\<close>\<close>

definition rstrip_dots :: "ustring \<Rightarrow> ustring" where
  "rstrip_dots s = rev (dropWhile (\<lambda>c. c = 46) (rev s))"

text \<open>
  \<open>s.split()\<close>: the maximal runs of non-whitespace characters. \<open>cur\<close> holds the
  current word, reversed.
\<close>

fun split_ws :: "ustring \<Rightarrow> ustring \<Rightarrow> ustring list" where
  "split_ws cur [] = (if cur = [] then [] else [rev cur])"
| "split_ws cur (c # cs) =
     (if py_isspace c
      then (if cur = [] then split_ws [] cs else rev cur # split_ws [] cs)
      else split_ws (c # cur) cs)"

definition py_split :: "ustring \<Rightarrow> ustring list" where
  "py_split s = split_ws [] s"

text \<open>\<open>sep.join(xs)\<close>\<close>

fun py_join :: "ustring \<Rightarrow> ustring list \<Rightarrow> ustring" where
  "py_join sep [] = []"
| "py_join sep [x] = x"
| "py_join sep (x # y # ys) = x @ sep @ py_join sep (y # ys)"

text \<open>\<open>sub in s\<close> on strings; \<open>s.startswith(p)\<close> is \<^const>\<open>prefix\<close>.\<close>

fun py_contains :: "'a list \<Rightarrow> 'a list \<Rightarrow> bool" where
  "py_contains sub [] = (sub = [])"
| "py_contains sub (c # cs) = (prefix sub (c # cs) \<or> py_contains sub cs)"

text \<open>\<open>s.rfind(marker)\<close>: the highest index at which \<open>marker\<close> starts, if any.\<close>

fun py_rfind :: "'a list \<Rightarrow> 'a list \<Rightarrow> nat option" where
  "py_rfind marker [] = (if marker = [] then Some 0 else None)"
| "py_rfind marker (c # cs) =
     (case py_rfind marker cs of
        Some i \<Rightarrow> Some (Suc i)
      | None \<Rightarrow> if prefix marker (c # cs) then Some 0 else None)"

text \<open>\<open>str(n)\<close> for a natural number: its decimal digits.\<close>

fun digits :: "nat \<Rightarrow> ustring" where
  "digits n = (if n < 10 then [48 + n] else digits (n div 10) @ [48 + n mod 10])"

declare digits.simps [simp del]

text \<open>
  \<open>s.splitlines()\<close>: lines end at \<open>\n\<close>, \<open>\r\<close>, \<open>\r\n\<close>, \<open>\v\<close>, \<open>\f\<close>, the
  separators \<open>0x1c\<close> to \<open>0x1e\<close>, \<open>0x85\<close>, \<open>0x2028\<close> and \<open>0x2029\<close>; the line ends
  are not kept, and a final line end opens no further line.
\<close>

definition is_linebreak :: "nat \<Rightarrow> bool" where
  "is_linebreak c =
     ((10 \<le> c \<and> c \<le> 13) \<or> (28 \<le> c \<and> c \<le> 30) \<or> c = 133 \<or> c = 8232 \<or> c = 8233)"

fun splitlines_from :: "ustring \<Rightarrow> ustring \<Rightarrow> ustring list" where
  "splitlines_from cur [] = (if cur = [] then [] else [rev cur])"
| "splitlines_from cur [c] =
     (if is_linebreak c then [rev cur] else [rev (c # cur)])"
| "splitlines_from cur (c # d # cs) =
     (if c = 13 \<and> d = 10 then rev cur # splitlines_from [] cs
      else if is_linebreak c then rev cur # splitlines_from [] (d # cs)
      else splitlines_from (c # cur) (d # cs))"

definition py_splitlines :: "ustring \<Rightarrow> ustring list" where
  "py_splitlines s = splitlines_from [] s"

section \<open>Python values\<close>

text \<open>
  The validator's report travels through the program as a \<open>dict[str, Any]\<close>. Such
  values are modelled by \<open>pyval\<close>; a dict is an association list in insertion order,
  read with \<^const>\<open>map_of\<close> and written with \<^const>\<open>AList.update\<close> (an existing
  key keeps its place, a new key goes to the end, as in Python). Floats do not occur.
\<close>

datatype pyval =
    PNone
  | PBool bool
  | PInt int
  | PStr ustring
  | PList "pyval list"
  | PDict "(string \<times> pyval) list"

type_synonym pydict = "(string \<times> pyval) list"

text \<open>\<open>bool(v)\<close>\<close>

fun py_truthy :: "pyval \<Rightarrow> bool" where
  "py_truthy PNone = False"
| "py_truthy (PBool b) = b"
| "py_truthy (PInt i) = (i \<noteq> 0)"
| "py_truthy (PStr s) = (s \<noteq> [])"
| "py_truthy (PList xs) = (xs \<noteq> [])"
| "py_truthy (PDict kvs) = (kvs \<noteq> [])"

text \<open>\<open>a or b\<close>\<close>

definition py_or :: "pyval \<Rightarrow> pyval \<Rightarrow> pyval" where
  "py_or a b = (if py_truthy a then a else b)"

text \<open>\<open>d.get(k, dflt)\<close>\<close>

definition dict_get :: "pydict \<Rightarrow> string \<Rightarrow> pyval \<Rightarrow> pyval" where
  "dict_get d k dflt = (case map_of d k of None \<Rightarrow> dflt | Some v \<Rightarrow> v)"

text \<open>\<open>isinstance(v, list)\<close> and \<open>isinstance(v, dict)\<close>\<close>

fun is_list :: "pyval \<Rightarrow> bool" where
  "is_list (PList xs) = True"
| "is_list v = False"

fun is_dict :: "pyval \<Rightarrow> bool" where
  "is_dict (PDict d) = True"
| "is_dict v = False"

text \<open>
  \<open>repr\<close> and \<open>str\<close>. \<open>str\<close> of a string is the string itself; of any other value
  it is its \<open>repr\<close>. In the \<open>repr\<close> of a string every code point above \<open>0x7f\<close> is
  taken to be printable.
\<close>

definition hex_digit :: "nat \<Rightarrow> nat" where
  "hex_digit d = (if d < 10 then 48 + d else 87 + d)"

definition repr_char :: "nat \<Rightarrow> nat \<Rightarrow> ustring" where
  "repr_char q c =
     (if c = q \<or> c = 92 then [92, c]
      else if c = 9 then [92, 116]
      else if c = 10 then [92, 110]
      else if c = 13 then [92, 114]
      else if c < 32 \<or> c = 127 then [92, 120, hex_digit (c div 16), hex_digit (c mod 16)]
      else [c])"

definition repr_str :: "ustring \<Rightarrow> ustring" where
  "repr_str s =
     (let q = (if 39 \<in> set s \<and> 34 \<notin> set s then 34 else 39)
      in q # concat (map (repr_char q) s) @ [q])"

fun py_repr :: "pyval \<Rightarrow> ustring" where
  "py_repr PNone = asc ''None''"
| "py_repr (PBool b) = (if b then asc ''True'' else asc ''False'')"
| "py_repr (PInt i) = (if i < 0 then 45 # digits (nat (- i)) else digits (nat i))"
| "py_repr (PStr s) = repr_str s"
| "py_repr (PList xs) = asc ''['' @ py_join (asc '', '') (map py_repr xs) @ asc '']''"
| "py_repr (PDict kvs) =
     asc ''{'' @
     py_join (asc '', '') (map (\<lambda>(k, v). repr_str (asc k) @ asc '': '' @ py_repr v) kvs) @
     asc ''}''"

fun py_str :: "pyval \<Rightarrow> ustring" where
  "py_str (PStr s) = s"
| "py_str v = py_repr v"

section \<open>The evidence sanitizer\<close>

text \<open>\<open>_normalize_ws\<close>: \<open>" ".join((s or "").split())\<close>\<close>

definition normalize_ws :: "ustring \<Rightarrow> ustring" where
  "normalize_ws s = py_join [32] (py_split s)"

text \<open>
  \<open>_sanitize_judge_meta\<close>. \<open>evidence_of\<close> is the expression
  \<open>str(item.get("evidence", "") or "").strip()\<close>; \<open>sanitize_loop\<close> is the \<open>for\<close>
  loop with its two accumulators; \<open>missing_in\<close> is the list the loop runs over.
\<close>

definition evidence_of :: "pydict \<Rightarrow> ustring" where
  "evidence_of item = py_strip (py_str (py_or (dict_get item ''evidence'' (PStr [])) (PStr [])))"

fun sanitize_loop :: "ustring \<Rightarrow> pyval list \<Rightarrow> pyval list \<Rightarrow> nat \<Rightarrow> pyval list \<times> nat" where
  "sanitize_loop doc_norm [] kept removed_count = (kept, removed_count)"
| "sanitize_loop doc_norm (item # rest) kept removed_count =
     (case item of
        PDict d \<Rightarrow>
          (let ev = evidence_of d
           in if ev \<noteq> [] \<and> py_contains (normalize_ws ev) doc_norm
              then sanitize_loop doc_norm rest (kept @ [item]) removed_count
              else sanitize_loop doc_norm rest kept (removed_count + 1))
      | _ \<Rightarrow> sanitize_loop doc_norm rest (kept @ [item]) removed_count)"

definition missing_in :: "pydict \<Rightarrow> pyval list" where
  "missing_in judge_meta =
     (case py_or (dict_get judge_meta ''missing'' PNone) (PList []) of
        PList xs \<Rightarrow> xs
      | _ \<Rightarrow> [])"

definition sanitize_judge_meta :: "ustring \<Rightarrow> pyval \<Rightarrow> pydict" where
  "sanitize_judge_meta doc_text judge_meta =
     (case judge_meta of
        PDict jm \<Rightarrow>
          (let doc_norm = normalize_ws doc_text;
               (kept, removed_count) = sanitize_loop doc_norm (missing_in jm) [] 0;
               out0 = AList.update ''missing'' (PList kept) jm;
               out1 = (if removed_count \<noteq> 0
                       then AList.update ''missing_sanitized_removed'' (PInt (int removed_count)) out0
                       else out0);
               ok_val = py_truthy (dict_get out1 ''ok'' (PBool False))
           in if \<not> ok_val \<and> kept = [] \<and> is_list (dict_get jm ''missing'' PNone)
              then AList.update ''ok_sanitized_overridden'' (PBool True)
                     (AList.update ''ok'' (PBool True) out1)
              else out1)
      | _ \<Rightarrow>
          [(''ok'', PBool False),
           (''missing'', PList [PStr (asc ''judge_meta_not_a_dict'')]),
           (''suggested_card_titles'', PList [])])"

text \<open>
  The specification's reading of the filter, to compare with the loop: a structured item
  is grounded when its evidence, with whitespace runs collapsed, is a non-empty contiguous
  part of the equally normalized document; any other item counts as grounded.
\<close>

definition evidence_text :: "pydict \<Rightarrow> ustring" where
  "evidence_text item = py_str (py_or (dict_get item ''evidence'' (PStr [])) (PStr []))"

fun evidence_grounded :: "ustring \<Rightarrow> pyval \<Rightarrow> bool" where
  "evidence_grounded doc (PDict d) =
     (normalize_ws (evidence_text d) \<noteq> [] \<and>
      sublist (normalize_ws (evidence_text d)) (normalize_ws doc))"
| "evidence_grounded doc v = True"

definition dropped_count :: "ustring \<Rightarrow> pydict \<Rightarrow> nat" where
  "dropped_count doc jm = length (filter (\<lambda>i. \<not> evidence_grounded doc i) (missing_in jm))"

definition bookkeeping_keys :: "string set" where
  "bookkeeping_keys = {''missing_sanitized_removed'', ''ok_sanitized_overridden''}"

section \<open>Cards, exceptions and the environment\<close>

text \<open>
  A card as the writer returns it (\<open>CardDraft.model_dump()\<close>): the five fields are
  always present and are strings or lists of strings, so \<open>str(rc.get(f, ""))\<close> is the
  field itself.
\<close>

record card =
  c_title :: ustring
  c_description :: ustring
  c_content_md :: ustring
  c_key_terms :: "ustring list"
  c_entities :: "ustring list"

text \<open>An exception: \<open>type(e).__name__\<close> and \<open>str(e)\<close>.\<close>

datatype exn = Exn (exn_kind: string) (exn_msg: ustring)

text \<open>
  The arguments of one \<open>_generate_cards_once\<close> call and of one \<open>_judge_once\<close> call,
  and the validator's parsed answer (\<open>JudgeResult\<close>).
\<close>

record gen_request =
  g_origin_rel_path :: ustring
  g_doc_text :: ustring
  g_guidance :: "ustring option"
  g_existing_cards :: "card list option"

record judge_request =
  j_origin_rel_path :: ustring
  j_doc_text :: ustring
  j_cards :: "card list"

record missing_item =
  m_what :: ustring
  m_evidence :: ustring

record judge_result =
  jr_ok :: bool
  jr_missing :: "missing_item list"
  jr_suggested_card_titles :: "ustring list"

datatype event = GenCall gen_request | JudgeCall judge_request

text \<open>
  What the program takes from outside itself:
  \<^item> \<open>str_lower\<close> is Python's \<open>str.lower\<close>, \<open>sha256_hexdigest\<close> is
    \<open>sha256(s.encode("utf-8")).hexdigest()\<close>, \<open>glob_match pattern name\<close> is the
    name matching of \<open>Path.glob\<close>;
  \<^item> \<open>generator n req\<close> is the outcome of the writer capability (prompt, model calls
    and parsing inside \<open>_llm_parse_pydantic\<close>) on request \<open>req\<close> when \<open>n\<close> calls
    have been made before: the parsed cards, or the exception that left it;
  \<^item> \<open>validator n req\<close> is the same for the judge capability.
\<close>

record env =
  str_lower :: "ustring \<Rightarrow> ustring"
  sha256_hexdigest :: "ustring \<Rightarrow> ustring"
  glob_match :: "ustring \<Rightarrow> ustring \<Rightarrow> bool"
  generator :: "nat \<Rightarrow> gen_request \<Rightarrow> exn + card list"
  validator :: "nat \<Rightarrow> judge_request \<Rightarrow> exn + judge_result"

text \<open>
  The knowledge base on disk. Paths are lists of components, absolute and free of
  symbolic links. \<open>origin_files\<close> lists the regular files with what reading them as
  UTF-8 text gives and their sha256 digest. \<open>unlink_error\<close> and \<open>write_error\<close> tell for
  which card file names \<open>unlink\<close> and \<open>write_text\<close> raise.
\<close>

record origin_file =
  o_read_text :: "exn + ustring"
  o_sha256 :: ustring

record kb =
  origins_dir :: "ustring list"
  cards_md_dir :: ustring
  origin_files :: "(ustring list \<times> origin_file) list"
  unlink_error :: "ustring \<Rightarrow> bool"
  write_error :: "ustring \<Rightarrow> exn option"

text \<open>
  What the operations change: the log of capability calls, and the listing of the card
  directory (file name and what \<open>read_text\<close> gives for it), in directory order.
\<close>

record world =
  calls :: "event list"
  cards_md :: "(ustring \<times> (exn + ustring)) list"

section \<open>Paths\<close>

text \<open>
  \<open>Path(s)\<close> keeps the components of \<open>s\<close> between slashes, without the empty ones
  and without \<open>.\<close>; \<open>resolve()\<close> then removes each \<open>..\<close> with the component before
  it (at the root it is dropped). \<open>str(p)\<close> of an absolute path joins the components
  after a leading slash.
\<close>

fun split_on :: "nat \<Rightarrow> ustring \<Rightarrow> ustring \<Rightarrow> ustring list" where
  "split_on sep cur [] = [rev cur]"
| "split_on sep cur (c # cs) =
     (if c = sep then rev cur # split_on sep [] cs else split_on sep (c # cur) cs)"

definition path_parts :: "ustring \<Rightarrow> ustring list" where
  "path_parts s = filter (\<lambda>c. c \<noteq> [] \<and> c \<noteq> [46]) (split_on 47 [] s)"

definition is_absolute :: "ustring \<Rightarrow> bool" where
  "is_absolute s = prefix [47] s"

fun resolve_parts :: "ustring list \<Rightarrow> ustring list \<Rightarrow> ustring list" where
  "resolve_parts acc [] = rev acc"
| "resolve_parts acc (c # cs) =
     (if c = [46, 46] then resolve_parts (tl acc) cs else resolve_parts (c # acc) cs)"

definition path_str :: "ustring list \<Rightarrow> ustring" where
  "path_str ps = (if ps = [] then [47] else concat (map (\<lambda>c. 47 # c) ps))"

text \<open>\<open>origins_dir / rel_path\<close>: an absolute right operand replaces the left one.\<close>

definition join_origin :: "kb \<Rightarrow> ustring \<Rightarrow> ustring list" where
  "join_origin k rel_path =
     (if is_absolute rel_path then path_parts rel_path else origins_dir k @ path_parts rel_path)"

text \<open>\<open>_resolve_origin\<close>\<close>

definition resolve_origin :: "kb \<Rightarrow> ustring \<Rightarrow> exn + ustring list" where
  "resolve_origin k rel_path =
     (let p = resolve_parts [] (join_origin k rel_path)
      in if \<not> prefix (path_str (resolve_parts [] (origins_dir k))) (path_str p)
         then Inl (Exn ''ValueError'' (asc ''Path escapes origins_dir''))
         else Inr p)"

text \<open>\<open>_origin_rel\<close>: the path below the origins directory, in posix form.\<close>

definition origin_rel :: "kb \<Rightarrow> ustring list \<Rightarrow> ustring" where
  "origin_rel k p = py_join [47] (drop (length (origins_dir k)) p)"

text \<open>\<open>Path(s).name\<close>, \<open>.suffix\<close> and \<open>.stem\<close>\<close>

definition path_name :: "ustring \<Rightarrow> ustring" where
  "path_name s = (let ps = path_parts s in if ps = [] then [] else last ps)"

definition name_suffix :: "ustring \<Rightarrow> ustring" where
  "name_suffix name =
     (case py_rfind [46] name of
        None \<Rightarrow> []
      | Some i \<Rightarrow> if 0 < i \<and> Suc i < length name then drop i name else [])"

definition path_stem :: "ustring \<Rightarrow> ustring" where
  "path_stem s =
     (let name = path_name s
      in take (length name - length (name_suffix name)) name)"

text \<open>\<open>origins_dir.name\<close>\<close>

definition origins_name :: "kb \<Rightarrow> ustring" where
  "origins_name k = (if origins_dir k = [] then [] else last (origins_dir k))"

text \<open>
  \<open>_list_markdown_files\<close>: the files below the origins directory whose lower-cased
  suffix is one of the three extensions, sorted as paths.
\<close>

definition markdown_exts :: "ustring list" where
  "markdown_exts = [asc ''.md'', asc ''.yml'', asc ''.yaml'']"

definition list_markdown_files :: "env \<Rightarrow> kb \<Rightarrow> (ustring list \<times> origin_file) list" where
  "list_markdown_files e k =
     sort_key fst
       (filter (\<lambda>(p, f). strict_prefix (origins_dir k) p \<and>
                         str_lower e (name_suffix (last p)) \<in> set markdown_exts)
          (origin_files k))"

text \<open>The files \<open>cards_md_dir.glob(f"card_*_{stem}.md")\<close> yields.\<close>

definition card_pattern :: "ustring \<Rightarrow> ustring" where
  "card_pattern stem = asc ''card_*_'' @ stem @ asc ''.md''"

definition glob_cards :: "env \<Rightarrow> world \<Rightarrow> ustring \<Rightarrow> (ustring \<times> (exn + ustring)) list" where
  "glob_cards e w stem = filter (\<lambda>(n, f). glob_match e (card_pattern stem) n) (cards_md w)"

section \<open>Card synthesis: generate, retry, judge, sanitize, refine\<close>

text \<open>
  \<open>_generate_cards_once\<close> and the call inside \<open>_judge_once\<close>: one call of the
  capability, recorded in the log. The position of the call is the number of calls made
  before it.
\<close>

definition generate_cards_once :: "env \<Rightarrow> world \<Rightarrow> gen_request \<Rightarrow> (exn + card list) \<times> world" where
  "generate_cards_once e w req =
     (generator e (length (calls w)) req, w\<lparr>calls := calls w @ [GenCall req]\<rparr>)"

text \<open>\<open>JudgeResult.model_dump()\<close>\<close>

definition missing_item_dump :: "missing_item \<Rightarrow> pyval" where
  "missing_item_dump m = PDict [(''what'', PStr (m_what m)), (''evidence'', PStr (m_evidence m))]"

definition model_dump :: "judge_result \<Rightarrow> pydict" where
  "model_dump jr =
     [(''ok'', PBool (jr_ok jr)),
      (''missing'', PList (map missing_item_dump (jr_missing jr))),
      (''suggested_card_titles'', PList (map PStr (jr_suggested_card_titles jr)))]"

text \<open>\<open>_judge_once\<close>: a failed validator call becomes a negative report.\<close>

definition judge_once :: "env \<Rightarrow> world \<Rightarrow> judge_request \<Rightarrow> pydict \<times> world" where
  "judge_once e w req =
     (let w' = w\<lparr>calls := calls w @ [JudgeCall req]\<rparr>
      in case validator e (length (calls w)) req of
           Inr judge_out \<Rightarrow> (model_dump judge_out, w')
         | Inl ex \<Rightarrow>
             ([(''ok'', PBool False),
               (''missing'', PList [PStr (asc ''judge_parse_error: '' @ asc (exn_kind ex))]),
               (''suggested_card_titles'', PList [])], w'))"

text \<open>\<open>_FALLBACK_MARKER\<close>, the denylist and \<open>_cards_have_generation_error\<close>\<close>

definition FALLBACK_MARKER :: ustring where
  "FALLBACK_MARKER =
     [1050, 1088, 1072, 1090, 1082, 1086, 1077, 32, 1086, 1087, 1080, 1089, 1072, 1085, 1080,
      1077, 32, 1085, 1077, 32, 1089, 1075, 1077, 1085, 1077, 1088, 1080, 1088, 1086, 1074, 1072,
      1085, 1086]"

definition bad_phrases :: "ustring list" where
  "bad_phrases =
     [[1090, 1088, 1077, 1073, 1091, 1077, 1090, 32, 1076, 1086, 1087, 1086, 1083, 1085, 1080,
       1090, 1077, 1083, 1100, 1085, 1086, 1075, 1086, 32, 1087, 1086, 1103, 1089, 1085, 1077,
       1085, 1080, 1103],
      [1090, 1088, 1077, 1073, 1091, 1102, 1090, 32, 1076, 1086, 1087, 1086, 1083, 1085, 1080,
       1090, 1077, 1083, 1100, 1085, 1086, 1075, 1086, 32, 1087, 1086, 1103, 1089, 1085, 1077,
       1085, 1080, 1103],
      [1085, 1077, 1086, 1073, 1093, 1086, 1076, 1080, 1084, 1086, 32, 1087, 1086, 1076, 1088,
       1086, 1073, 1085, 1077, 1077, 32, 1086, 1087, 1080, 1089, 1072, 1090, 1100],
      [1085, 1091, 1078, 1085, 1086, 32, 1087, 1086, 1076, 1088, 1086, 1073, 1085, 1077, 1077,
       32, 1086, 1087, 1080, 1089, 1072, 1090, 1100],
      [1087, 1088, 1077, 1076, 1089, 1090, 1072, 1074, 1083, 1077, 1085, 1099, 32, 1082, 1088,
       1072, 1090, 1082, 1086, 32, 1080, 32, 1090, 1088, 1077, 1073, 1091, 1102, 1090],
      [1090, 1088, 1077, 1073, 1091, 1077, 1090, 32, 1076, 1086, 1088, 1072, 1073, 1086, 1090,
       1082, 1080],
      [1085, 1091, 1078, 1076, 1072, 1077, 1090, 1089, 1103, 32, 1074, 32, 1076, 1086, 1088,
       1072, 1073, 1086, 1090, 1082, 1077],
      [1085, 1077, 1076, 1086, 1089, 1090, 1072, 1090, 1086, 1095, 1085, 1086, 32, 1080, 1085,
       1092, 1086, 1088, 1084, 1072, 1094, 1080, 1080],
      [1090, 1088, 1077, 1073, 1091, 1077, 1090, 32, 1076, 1086, 1087, 1086, 1083, 1085, 1080,
       1090, 1077, 1083, 1100, 1085, 1086, 1075, 1086, 32, 1091, 1090, 1086, 1095, 1085, 1077,
       1085, 1080, 1103]]"

fun cards_have_generation_error :: "env \<Rightarrow> card list \<Rightarrow> bool" where
  "cards_have_generation_error e [] = False"
| "cards_have_generation_error e (c # cs) =
     (if py_contains FALLBACK_MARKER (c_description c) \<or>
         py_contains FALLBACK_MARKER (c_content_md c)
      then True
      else if list_ex (\<lambda>p. py_contains p (str_lower e (c_description c @ [10] @ c_content_md c)))
                bad_phrases
      then True
      else cards_have_generation_error e cs)"

text \<open>\<open>extract_title\<close>: the first line that, stripped, starts with \<open>"# "\<close>.\<close>

fun first_heading :: "ustring list \<Rightarrow> ustring \<Rightarrow> ustring" where
  "first_heading [] fallback = fallback"
| "first_heading (l # ls) fallback =
     (let line = py_strip l
      in if prefix [35, 32] line then py_strip (drop 2 line) else first_heading ls fallback)"

definition extract_title :: "ustring \<Rightarrow> ustring \<Rightarrow> ustring" where
  "extract_title md_text fallback = first_heading (py_splitlines md_text) fallback"

text \<open>The guidance of the retry call, the placeholder card and its quality report.\<close>

definition retry_guidance :: ustring where
  "retry_guidance =
     [1055, 1088, 1077, 1076, 1099, 1076, 1091, 1097, 1072, 1103, 32, 1087, 1086, 1087, 1099,
      1090, 1082, 1072, 32, 1089, 1086, 1076, 1077, 1088, 1078, 1072, 1083, 1072, 32, 1086, 1096,
      1080, 1073, 1082, 1091, 32, 1075, 1077, 1085, 1077, 1088, 1072, 1094, 1080, 1080, 46, 32,
      1042, 1077, 1088, 1085, 1080, 32, 1082, 1086, 1088, 1088, 1077, 1082, 1090, 1085, 1099,
      1077, 32, 1082, 1072, 1088, 1090, 1086, 1095, 1082, 1080, 46]"

definition placeholder_card :: "ustring \<Rightarrow> card" where
  "placeholder_card title =
     \<lparr>c_title = title,
      c_description =
        [1044, 1086, 1082, 1091, 1084, 1077, 1085, 1090, 32, 1089, 1086, 1076, 1077, 1088, 1078,
         1080, 1090, 32, 1080, 1085, 1092, 1086, 1088, 1084, 1072, 1094, 1080, 1102, 32, 1086, 32,
         40, 1086, 1096, 1080, 1073, 1082, 1072, 32, 1075, 1077, 1085, 1077, 1088, 1072, 1094,
         1080, 1080, 32, 1082, 1072, 1088, 1090, 1086, 1095, 1077, 1082, 41, 46],
      c_content_md =
        [1050, 1088, 1072, 1090, 1082, 1086, 1077, 32, 1086, 1087, 1080, 1089, 1072, 1085, 1080,
         1077, 32, 1085, 1077, 32, 1089, 1075, 1077, 1085, 1077, 1088, 1080, 1088, 1086, 1074,
         1072, 1085, 1086, 32, 40, 1086, 1096, 1080, 1073, 1082, 1072, 32, 1092, 1086, 1088, 1084,
         1072, 1090, 1072, 47, 1089, 1077, 1090, 1080, 41, 46],
      c_key_terms = [],
      c_entities = []\<rparr>"

definition placeholder_quality :: pydict where
  "placeholder_quality =
     [(''judge'',
       PDict [(''ok'', PBool False),
              (''missing'',
                PList [PStr [1054, 1096, 1080, 1073, 1082, 1072, 32, 1075, 1077, 1085, 1077, 1088,
                             1072, 1094, 1080, 1080, 47, 1087, 1072, 1088, 1089, 1080, 1085, 1075,
                             1072, 47, 1089, 1077, 1090, 1080]]),
              (''suggested_card_titles'', PList [])])]"

text \<open>
  The guidance of the refinement call, from the sanitized report. The report comes from
  \<open>judge_once\<close>, so \<open>missing\<close> and \<open>suggested_card_titles\<close> are lists; another value
  is read as the empty list.
\<close>

definition list_items :: "pyval \<Rightarrow> pyval list" where
  "list_items v = (case v of PList xs \<Rightarrow> xs | _ \<Rightarrow> [])"

fun guidance_parts :: "pyval list \<Rightarrow> ustring list" where
  "guidance_parts [] = []"
| "guidance_parts (item # rest) =
     (case item of
        PDict d \<Rightarrow>
          (let what = py_strip (py_str (dict_get d ''what'' (PStr [])));
               ev = py_strip (py_str (dict_get d ''evidence'' (PStr [])))
           in if what \<noteq> [] \<and> ev \<noteq> []
              then (what @ [10, 32, 32, 1094, 1080, 1090, 1072, 1090, 1072, 58, 32] @ ev) #
                   guidance_parts rest
              else if what \<noteq> [] then what # guidance_parts rest
              else guidance_parts rest)
      | _ \<Rightarrow> py_str item # guidance_parts rest)"

definition guidance_tail :: ustring where
  "guidance_tail =
     [10, 1057, 1076, 1077, 1083, 1072, 1081, 32, 1087, 1088, 1072, 1074, 1082, 1080, 44, 32,
      1086, 1087, 1080, 1088, 1072, 1103, 1089, 1100, 32, 1058, 1054, 1051, 1068, 1050, 1054, 32,
      1085, 1072, 32, 1086, 1088, 1080, 1075, 1080, 1085, 1072, 1083, 1100, 1085, 1099, 1081, 32,
      1076, 1086, 1082, 1091, 1084, 1077, 1085, 1090, 46, 32, 1045, 1089, 1083, 1080, 32, 1082,
      1072, 1082, 1086, 1075, 1086, 45, 1090, 1086, 32, 39, 109, 105, 115, 115, 105, 110, 103,
      39, 32, 1085, 1077, 1090, 32, 1074, 32, 1076, 1086, 1082, 1091, 1084, 1077, 1085, 1090,
      1077, 32, 8212, 32, 1053, 1045, 32, 1076, 1086, 1073, 1072, 1074, 1083, 1103, 1081, 32,
      1101, 1090, 1086, 46]"

definition refine_guidance :: "pydict \<Rightarrow> ustring" where
  "refine_guidance judge_meta =
     (let missing = list_items (py_or (dict_get judge_meta ''missing'' PNone) (PList []));
          suggested =
            list_items (py_or (dict_get judge_meta ''suggested_card_titles'' PNone) (PList []));
          g1 = (if missing \<noteq> []
                then [1053, 1077, 32, 1087, 1086, 1082, 1088, 1099, 1090, 1086, 32, 40, 1089, 32,
                      1094, 1080, 1090, 1072, 1090, 1072, 1084, 1080, 32, 1080, 1079, 32, 1086,
                      1088, 1080, 1075, 1080, 1085, 1072, 1083, 1072, 41, 58, 10, 45, 32] @
                     py_join [10, 45, 32] (guidance_parts missing) @ [10]
                else []);
          g2 = (if suggested \<noteq> []
                then [1053, 1091, 1078, 1085, 1086, 32, 1076, 1086, 1073, 1072, 1074, 1080, 1090,
                      1100, 47, 1080, 1089, 1087, 1088, 1072, 1074, 1080, 1090, 1100, 32, 40,
                      1079, 1072, 1075, 1086, 1083, 1086, 1074, 1082, 1080, 41, 58, 10, 45, 32] @
                     py_join [10, 45, 32] (map py_str suggested) @ [10]
                else [])
      in g1 @ g2 @ guidance_tail)"

text \<open>
  Steps 1 to 4 of \<open>kb_upsert_cards_for_markdown\<close>: from the document to the final
  card list and the quality report. \<open>first_generation\<close> is step 1 with step 2 (the
  candidate cards, empty when both attempts failed); \<open>judge_and_refine\<close> is steps 3 and 4.
\<close>

definition first_generation ::
  "env \<Rightarrow> world \<Rightarrow> ustring \<Rightarrow> ustring \<Rightarrow> card list \<times> world" where
  "first_generation e w origin_rel_path md_text =
     (let (r1, w1) = generate_cards_once e w
            \<lparr>g_origin_rel_path = origin_rel_path, g_doc_text = md_text,
             g_guidance = None, g_existing_cards = None\<rparr>;
          raw_cards = (case r1 of Inr cs \<Rightarrow> cs | Inl ex \<Rightarrow> [])
      in if raw_cards = [] \<or> cards_have_generation_error e raw_cards
         then (let (r2, w2) = generate_cards_once e w1
                     \<lparr>g_origin_rel_path = origin_rel_path, g_doc_text = md_text,
                      g_guidance = Some retry_guidance, g_existing_cards = None\<rparr>
               in ((case r2 of Inr cs \<Rightarrow> cs | Inl ex \<Rightarrow> []), w2))
         else (raw_cards, w1))"

definition judge_and_refine ::
  "env \<Rightarrow> world \<Rightarrow> ustring \<Rightarrow> ustring \<Rightarrow> card list \<Rightarrow> (card list \<times> pydict) \<times> world" where
  "judge_and_refine e w origin_rel_path md_text raw_cards =
     (let (judge_meta0, w3) = judge_once e w
            \<lparr>j_origin_rel_path = origin_rel_path, j_doc_text = md_text, j_cards = raw_cards\<rparr>;
          judge_meta = sanitize_judge_meta md_text (PDict judge_meta0);
          quality = [(''judge'', PDict judge_meta)]
      in if \<not> py_truthy (dict_get judge_meta ''ok'' (PBool False))
         then (let (r3, w4) = generate_cards_once e w3
                     \<lparr>g_origin_rel_path = origin_rel_path, g_doc_text = md_text,
                      g_guidance = Some (refine_guidance judge_meta),
                      g_existing_cards = Some raw_cards\<rparr>
               in case r3 of
                    Inr refined \<Rightarrow>
                      if refined \<noteq> []
                      then ((refined, AList.update ''refinement_applied'' (PBool True) quality), w4)
                      else ((raw_cards, AList.update ''refinement_applied'' (PBool False) quality), w4)
                  | Inl ex \<Rightarrow>
                      ((raw_cards,
                        AList.update ''refinement_error'' (PStr (asc (exn_kind ex)))
                          (AList.update ''refinement_applied'' (PBool False) quality)), w4))
         else ((raw_cards, AList.update ''refinement_applied'' (PBool False) quality), w3))"

definition synthesize ::
  "env \<Rightarrow> world \<Rightarrow> ustring \<Rightarrow> ustring \<Rightarrow> ustring \<Rightarrow> (card list \<times> pydict) \<times> world" where
  "synthesize e w origin_rel_path md_text title =
     (let (raw_cards, w2) = first_generation e w origin_rel_path md_text
      in if raw_cards = []
         then (([placeholder_card title], placeholder_quality), w2)
         else judge_and_refine e w2 origin_rel_path md_text raw_cards)"

text \<open>Reading the call log: the calls an operation added, by capability.\<close>

definition new_calls :: "world \<Rightarrow> world \<Rightarrow> event list" where
  "new_calls w w' = drop (length (calls w)) (calls w')"

fun gen_requests :: "event list \<Rightarrow> gen_request list" where
  "gen_requests [] = []"
| "gen_requests (GenCall r # evs) = r # gen_requests evs"
| "gen_requests (JudgeCall r # evs) = gen_requests evs"

fun judge_requests :: "event list \<Rightarrow> judge_request list" where
  "judge_requests [] = []"
| "judge_requests (GenCall r # evs) = judge_requests evs"
| "judge_requests (JudgeCall r # evs) = r # judge_requests evs"

definition first_request :: "ustring \<Rightarrow> ustring \<Rightarrow> gen_request" where
  "first_request origin_rel_path md_text =
     \<lparr>g_origin_rel_path = origin_rel_path, g_doc_text = md_text,
      g_guidance = None, g_existing_cards = None\<rparr>"

definition retry_request :: "ustring \<Rightarrow> ustring \<Rightarrow> gen_request" where
  "retry_request origin_rel_path md_text =
     \<lparr>g_origin_rel_path = origin_rel_path, g_doc_text = md_text,
      g_guidance = Some retry_guidance, g_existing_cards = None\<rparr>"

definition refine_request :: "ustring \<Rightarrow> ustring \<Rightarrow> pydict \<Rightarrow> card list \<Rightarrow> gen_request" where
  "refine_request origin_rel_path md_text judge_meta raw_cards =
     \<lparr>g_origin_rel_path = origin_rel_path, g_doc_text = md_text,
      g_guidance = Some (refine_guidance judge_meta), g_existing_cards = Some raw_cards\<rparr>"

definition judge_request_of :: "ustring \<Rightarrow> ustring \<Rightarrow> card list \<Rightarrow> judge_request" where
  "judge_request_of origin_rel_path md_text raw_cards =
     \<lparr>j_origin_rel_path = origin_rel_path, j_doc_text = md_text, j_cards = raw_cards\<rparr>"

text \<open>
  The first answer of the generator is rejected when the call raised, or gave no card,
  or gave a card with the failure marker or a denylisted phrase.
\<close>

definition first_attempt_rejected :: "env \<Rightarrow> world \<Rightarrow> ustring \<Rightarrow> ustring \<Rightarrow> bool" where
  "first_attempt_rejected e w origin_rel_path md_text =
     (case generator e (length (calls w)) (first_request origin_rel_path md_text) of
        Inl ex \<Rightarrow> True
      | Inr cs \<Rightarrow> cs = [] \<or> cards_have_generation_error e cs)"

definition retry_gave_nothing :: "env \<Rightarrow> world \<Rightarrow> ustring \<Rightarrow> ustring \<Rightarrow> bool" where
  "retry_gave_nothing e w origin_rel_path md_text =
     (case generator e (Suc (length (calls w))) (retry_request origin_rel_path md_text) of
        Inl ex \<Rightarrow> True
      | Inr cs \<Rightarrow> cs = [])"

definition is_retry :: "gen_request \<Rightarrow> bool" where
  "is_retry r = (g_guidance r = Some retry_guidance)"

definition is_refinement :: "gen_request \<Rightarrow> bool" where
  "is_refinement r = (g_existing_cards r \<noteq> None)"

text \<open>The sanitized verdict on a candidate card set, and the answer to the refinement call.\<close>

definition verdict_of :: "env \<Rightarrow> world \<Rightarrow> ustring \<Rightarrow> ustring \<Rightarrow> card list \<Rightarrow> pydict" where
  "verdict_of e w origin_rel_path md_text raw_cards =
     sanitize_judge_meta md_text
       (PDict (fst (judge_once e w (judge_request_of origin_rel_path md_text raw_cards))))"

definition refinement_answer ::
  "env \<Rightarrow> world \<Rightarrow> ustring \<Rightarrow> ustring \<Rightarrow> card list \<Rightarrow> exn + card list" where
  "refinement_answer e w origin_rel_path md_text raw_cards =
     generator e (Suc (length (calls w)))
       (refine_request origin_rel_path md_text
          (verdict_of e w origin_rel_path md_text raw_cards) raw_cards)"

definition verdict_ok :: "pydict \<Rightarrow> bool" where
  "verdict_ok judge_meta = py_truthy (dict_get judge_meta ''ok'' (PBool False))"

text \<open>The entries of a value that is a dict (none for any other value).\<close>

definition list_dict :: "pyval \<Rightarrow> pydict" where
  "list_dict v = (case v of PDict d \<Rightarrow> d | _ \<Rightarrow> [])"

section \<open>Writing the card files\<close>

text \<open>
  The body of the loop over \<open>enumerate(raw_cards)\<close>, one definition per computed
  name. The key terms and entities are computed by the source but written nowhere, so
  they do not appear.
\<close>

definition lead_in_lower :: ustring where
  "lead_in_lower =
     [1076, 1086, 1082, 1091, 1084, 1077, 1085, 1090, 32, 1089, 1086, 1076, 1077, 1088, 1078,
      1080, 1090, 32, 1080, 1085, 1092, 1086, 1088, 1084, 1072, 1094, 1080, 1102, 32, 1086]"

definition lead_in :: ustring where
  "lead_in =
     [1044, 1086, 1082, 1091, 1084, 1077, 1085, 1090, 32, 1089, 1086, 1076, 1077, 1088, 1078,
      1080, 1090, 32, 1080, 1085, 1092, 1086, 1088, 1084, 1072, 1094, 1080, 1102, 32, 1086]"

definition card_title :: "ustring \<Rightarrow> nat \<Rightarrow> card \<Rightarrow> ustring" where
  "card_title title idx rc =
     (let t = py_strip (c_title rc)
      in if t \<noteq> [] then t
         else title @ [32, 8212, 32, 1095, 1072, 1089, 1090, 1100, 32] @ digits (idx + 1))"

definition card_description :: "env \<Rightarrow> card \<Rightarrow> ustring" where
  "card_description e rc =
     (let description = py_strip (c_description rc)
      in if description \<noteq> [] \<and> \<not> prefix lead_in_lower (str_lower e description)
         then lead_in @ [32] @ rstrip_dots description @ [46]
         else description)"

definition card_id :: "env \<Rightarrow> ustring \<Rightarrow> ustring \<Rightarrow> nat \<Rightarrow> ustring \<Rightarrow> ustring" where
  "card_id e origin_rel_path md_hash idx t =
     take 12 (sha256_hexdigest e
                (origin_rel_path @ [58] @ md_hash @ [58] @ digits idx @ [58] @ t))"

definition card_filename :: "ustring \<Rightarrow> ustring \<Rightarrow> ustring" where
  "card_filename cid source_stem = asc ''card_'' @ cid @ asc ''_'' @ source_stem @ asc ''.md''"

definition provenance_comment :: "kb \<Rightarrow> ustring \<Rightarrow> ustring \<Rightarrow> ustring" where
  "provenance_comment k origin_rel_path md_hash =
     asc ''<!-- source: '' @ origins_name k @ [47] @ origin_rel_path @
     asc '' source_sha256: '' @ md_hash @ asc '' -->''"

definition card_body :: "env \<Rightarrow> kb \<Rightarrow> ustring \<Rightarrow> ustring \<Rightarrow> card \<Rightarrow> ustring" where
  "card_body e k origin_rel_path md_hash rc =
     asc ''-- '' @ card_description e rc @ asc '' --'' @ [10, 10] @
     py_strip (c_content_md rc) @ [10, 10] @
     provenance_comment k origin_rel_path md_hash @ [10]"

definition card_file_of ::
  "env \<Rightarrow> kb \<Rightarrow> ustring \<Rightarrow> ustring \<Rightarrow> ustring \<Rightarrow> ustring \<Rightarrow> nat \<Rightarrow> card \<Rightarrow> ustring \<times> ustring" where
  "card_file_of e k origin_rel_path md_hash title source_stem idx rc =
     (card_filename (card_id e origin_rel_path md_hash idx (card_title title idx rc)) source_stem,
      card_body e k origin_rel_path md_hash rc)"

text \<open>
  The loop itself: \<open>write_text\<close> replaces or adds the file; when it raises, the files
  written so far stay.
\<close>

fun write_cards ::
  "env \<Rightarrow> kb \<Rightarrow> ustring \<Rightarrow> ustring \<Rightarrow> ustring \<Rightarrow> ustring \<Rightarrow> nat \<Rightarrow> card list \<Rightarrow>
   (ustring \<times> (exn + ustring)) list \<Rightarrow> ustring list \<Rightarrow>
   (exn + ustring list) \<times> (ustring \<times> (exn + ustring)) list" where
  "write_cards e k origin_rel_path md_hash title source_stem idx [] dir created_files =
     (Inr created_files, dir)"
| "write_cards e k origin_rel_path md_hash title source_stem idx (rc # rest) dir created_files =
     (let (md_filename, md_body) =
            card_file_of e k origin_rel_path md_hash title source_stem idx rc
      in case write_error k md_filename of
           Some ex \<Rightarrow> (Inl ex, dir)
         | None \<Rightarrow>
             write_cards e k origin_rel_path md_hash title source_stem (Suc idx) rest
               (AList.update md_filename (Inr md_body) dir)
               (created_files @ [cards_md_dir k @ [47] @ md_filename]))"

section \<open>The operations\<close>

record upsert_result =
  r_ok :: bool
  r_skipped :: bool
  r_origin :: ustring
  r_cards_md_count :: nat
  r_cards_md_files :: "ustring list"
  r_quality :: pydict

text \<open>
  Cleaning the old card files: every file the pattern matches is unlinked, and a failing
  \<open>unlink\<close> is passed over.
\<close>

definition delete_old_cards :: "env \<Rightarrow> kb \<Rightarrow> ustring \<Rightarrow> world \<Rightarrow> world" where
  "delete_old_cards e k stem w =
     w\<lparr>cards_md :=
         filter (\<lambda>(n, f). \<not> (glob_match e (card_pattern stem) n \<and> \<not> unlink_error k n))
           (cards_md w)\<rparr>"

text \<open>
  The first lines of \<open>kb_upsert_cards_for_markdown\<close> and of \<open>kb_read_markdown\<close>:
  the argument check, \<open>_resolve_origin\<close> and \<open>read_text\<close>, here with the digest
  of the file. Reading a path that names no regular file raises (\<open>FileNotFoundError\<close>;
  for a directory Python raises \<open>IsADirectoryError\<close>, which the model does not tell
  apart).
\<close>

definition read_origin :: "kb \<Rightarrow> ustring \<Rightarrow> exn + ustring \<times> ustring" where
  "read_origin k origin_rel_path =
     (if origin_rel_path = []
      then Inl (Exn ''ValueError'' (asc ''origin_rel_path is required''))
      else case resolve_origin k origin_rel_path of
        Inl ex \<Rightarrow> Inl ex
      | Inr md_path \<Rightarrow>
          (case map_of (origin_files k) md_path of
             None \<Rightarrow> Inl (Exn ''FileNotFoundError'' (path_str md_path))
           | Some f \<Rightarrow>
               (case o_read_text f of
                  Inl ex \<Rightarrow> Inl ex
                | Inr md_text \<Rightarrow> Inr (md_text, o_sha256 f))))"

text \<open>\<open>kb_upsert_cards_for_markdown\<close>\<close>

definition kb_upsert_cards_for_markdown ::
  "env \<Rightarrow> kb \<Rightarrow> world \<Rightarrow> ustring \<Rightarrow> (exn + upsert_result) \<times> world" where
  "kb_upsert_cards_for_markdown e k w origin_rel_path =
     (case read_origin k origin_rel_path of
        Inl ex \<Rightarrow> (Inl ex, w)
      | Inr (md_text, md_hash) \<Rightarrow>
          (let stem = path_stem origin_rel_path;
               w1 = delete_old_cards e k stem w;
               title = extract_title md_text stem;
               ((raw_cards, quality), w2) = synthesize e w1 origin_rel_path md_text title;
               (written, dir) =
                 write_cards e k origin_rel_path md_hash title stem 0 raw_cards (cards_md w2) []
           in case written of
                Inl ex \<Rightarrow> (Inl ex, w2\<lparr>cards_md := dir\<rparr>)
              | Inr created_files \<Rightarrow>
                  (Inr \<lparr>r_ok = True, r_skipped = False, r_origin = origin_rel_path,
                        r_cards_md_count = length created_files,
                        r_cards_md_files = created_files,
                        r_quality = quality\<rparr>,
                   w2\<lparr>cards_md := dir\<rparr>)))"

text \<open>\<open>kb_read_markdown\<close>, without the size and the modification time.\<close>

definition kb_read_markdown :: "kb \<Rightarrow> ustring \<Rightarrow> nat \<Rightarrow> exn + ustring" where
  "kb_read_markdown k origin_rel_path max_chars =
     (case read_origin k origin_rel_path of
        Inl ex \<Rightarrow> Inl ex
      | Inr (text, digest) \<Rightarrow>
          Inr (if length text > max_chars
               then take max_chars text @ [10, 10] @ asc ''[TRUNCATED]''
               else text))"

text \<open>\<open>kb_sync_all\<close>: the loop has no handler, so the first exception ends it.\<close>

record sync_result =
  s_ok :: bool
  s_processed :: nat
  s_results :: "upsert_result list"

fun sync_loop ::
  "env \<Rightarrow> kb \<Rightarrow> world \<Rightarrow> (ustring list \<times> origin_file) list \<Rightarrow> upsert_result list \<Rightarrow>
   (exn + upsert_result list) \<times> world" where
  "sync_loop e k w [] results = (Inr results, w)"
| "sync_loop e k w (md # rest) results =
     (case kb_upsert_cards_for_markdown e k w (origin_rel k (fst md)) of
        (Inl ex, w') \<Rightarrow> (Inl ex, w')
      | (Inr r, w') \<Rightarrow> sync_loop e k w' rest (results @ [r]))"

definition kb_sync_all :: "env \<Rightarrow> kb \<Rightarrow> world \<Rightarrow> (exn + sync_result) \<times> world" where
  "kb_sync_all e k w =
     (let md_files = list_markdown_files e k
      in case sync_loop e k w md_files [] of
           (Inl ex, w') \<Rightarrow> (Inl ex, w')
         | (Inr results, w') \<Rightarrow>
             (Inr \<lparr>s_ok = True, s_processed = length md_files, s_results = results\<rparr>, w'))"

text \<open>
  The files the loop of \<open>write_cards\<close> writes, in order, up to the first failing
  \<open>write_text\<close>.
\<close>

fun writes_of ::
  "env \<Rightarrow> kb \<Rightarrow> ustring \<Rightarrow> ustring \<Rightarrow> ustring \<Rightarrow> ustring \<Rightarrow> nat \<Rightarrow> card list \<Rightarrow>
   (ustring \<times> ustring) list" where
  "writes_of e k origin_rel_path md_hash title source_stem idx [] = []"
| "writes_of e k origin_rel_path md_hash title source_stem idx (rc # rest) =
     (let (md_filename, md_body) =
            card_file_of e k origin_rel_path md_hash title source_stem idx rc
      in case write_error k md_filename of
           Some ex \<Rightarrow> []
         | None \<Rightarrow>
             (md_filename, md_body) #
             writes_of e k origin_rel_path md_hash title source_stem (Suc idx) rest)"

section \<open>Coverage analysis\<close>

text \<open>
  \<open>_extract_sha_from_md_card\<close>. \<open>tail.split()[0]\<close> raises \<open>IndexError\<close> when only
  whitespace follows the last marker.
\<close>

definition sha_marker :: ustring where
  "sha_marker = asc ''source_sha256:''"

definition extract_sha_from_md_card :: "ustring \<Rightarrow> exn + ustring option" where
  "extract_sha_from_md_card text =
     (case py_rfind sha_marker text of
        None \<Rightarrow> Inr None
      | Some idx \<Rightarrow>
          (let tail = py_strip (drop (idx + length sha_marker) text)
           in case py_split tail of
                [] \<Rightarrow> Inl (Exn ''IndexError'' (asc ''list index out of range''))
              | word # ws \<Rightarrow>
                  (let sha = py_strip word
                   in Inr (if length sha \<ge> 32 then Some sha else None))))"

text \<open>The entry of the \<open>invalid\<close> list: \<open>f"{rel}: {cf.name}: {type(e).__name__}: {e}"\<close>.\<close>

definition invalid_entry :: "ustring \<Rightarrow> ustring \<Rightarrow> exn \<Rightarrow> ustring" where
  "invalid_entry rel name ex =
     rel @ asc '': '' @ name @ asc '': '' @ asc (exn_kind ex) @ asc '': '' @ exn_msg ex"

text \<open>
  The inner loop over the card files of one document: it stops at the first card that is
  bad, and gives \<open>bad\<close> with the entries added to \<open>invalid\<close>.
\<close>

fun scan_card_files ::
  "ustring \<Rightarrow> ustring \<Rightarrow> (ustring \<times> (exn + ustring)) list \<Rightarrow> bool \<times> ustring list" where
  "scan_card_files rel current_hash [] = (False, [])"
| "scan_card_files rel current_hash ((name, content) # rest) =
     (case content of
        Inl ex \<Rightarrow> (True, [invalid_entry rel name ex])
      | Inr txt \<Rightarrow>
          (case extract_sha_from_md_card txt of
             Inl ex \<Rightarrow> (True, [invalid_entry rel name ex])
           | Inr sha \<Rightarrow>
               if sha = None \<or> sha = Some [] \<or> sha \<noteq> Some current_hash
               then (True, [])
               else scan_card_files rel current_hash rest))"

record coverage =
  origins_total :: nat
  missing_cards_for_origins :: "ustring list"
  stale_cards_for_origins :: "ustring list"
  invalid_card_md_files :: "ustring list"

text \<open>
  The body of the loop over the documents: what one document adds to \<open>missing\<close>,
  to \<open>stale\<close> and to \<open>invalid\<close>.
\<close>

definition classify_origin ::
  "env \<Rightarrow> kb \<Rightarrow> world \<Rightarrow> bool \<Rightarrow> ustring list \<times> origin_file \<Rightarrow>
   ustring list \<times> ustring list \<times> ustring list" where
  "classify_origin e k w include_stale md =
     (let rel = origin_rel k (fst md);
          stem = path_stem rel;
          card_files = glob_cards e w stem
      in if card_files = [] then ([rel], [], [])
         else if include_stale
         then (let current_hash = o_sha256 (snd md);
                   (bad, inv) = scan_card_files rel current_hash card_files
               in ([], if bad then [rel] else [], inv))
         else ([], [], []))"

fun coverage_loop ::
  "env \<Rightarrow> kb \<Rightarrow> world \<Rightarrow> bool \<Rightarrow> (ustring list \<times> origin_file) list \<Rightarrow>
   ustring list \<Rightarrow> ustring list \<Rightarrow> ustring list \<Rightarrow>
   ustring list \<times> ustring list \<times> ustring list" where
  "coverage_loop e k w include_stale [] missing stale invalid = (missing, stale, invalid)"
| "coverage_loop e k w include_stale (md # rest) missing stale invalid =
     (let (m, s, i) = classify_origin e k w include_stale md
      in coverage_loop e k w include_stale rest (missing @ m) (stale @ s) (invalid @ i))"

definition kb_analyze_coverage :: "env \<Rightarrow> kb \<Rightarrow> world \<Rightarrow> bool \<Rightarrow> coverage" where
  "kb_analyze_coverage e k w include_stale =
     (let md_files = list_markdown_files e k;
          (missing, stale, invalid) = coverage_loop e k w include_stale md_files [] [] []
      in \<lparr>origins_total = length md_files,
          missing_cards_for_origins = missing,
          stale_cards_for_origins = stale,
          invalid_card_md_files = invalid\<rparr>)"

text \<open>
  The specification's words for one card file: it carries the fingerprint \<open>h\<close> when it
  can be read and the token after its last marker is \<open>h\<close>, at least 32 characters long.
\<close>

definition carries_fingerprint :: "ustring \<Rightarrow> ustring \<times> (exn + ustring) \<Rightarrow> bool" where
  "carries_fingerprint h cf =
     (case snd cf of
        Inl ex \<Rightarrow> False
      | Inr txt \<Rightarrow> extract_sha_from_md_card txt = Inr (Some h))"

text \<open>The card files of one document, and the three parts of its classification.\<close>

definition matching_cards ::
  "env \<Rightarrow> kb \<Rightarrow> world \<Rightarrow> ustring list \<times> origin_file \<Rightarrow> (ustring \<times> (exn + ustring)) list" where
  "matching_cards e k w md = glob_cards e w (path_stem (origin_rel k (fst md)))"

definition in_missing :: "ustring list \<times> ustring list \<times> ustring list \<Rightarrow> ustring list" where
  "in_missing c = fst c"

definition in_stale :: "ustring list \<times> ustring list \<times> ustring list \<Rightarrow> ustring list" where
  "in_stale c = fst (snd c)"

definition in_invalid :: "ustring list \<times> ustring list \<times> ustring list \<Rightarrow> ustring list" where
  "in_invalid c = snd (snd c)"

section \<open>Concrete inputs\<close>

text \<open>The inputs at which the theorems below are instantiated.\<close>

definition acme_doc :: ustring where
  "acme_doc = asc ''The tool is called Acme''"

definition acme_report :: "(string \<times> pyval) list" where
  "acme_report =
     [(''ok'', PBool False),
      (''missing'',
         PList [PDict [(''what'', PStr (asc ''tool name'')),
                       (''evidence'', PStr (asc ''The tool  is called Acme''))],
                PDict [(''what'', PStr (asc ''tool name'')),
                       (''evidence'', PStr (asc ''The tool is called Zenith''))]]),
      (''suggested_card_titles'', PList [PStr (asc ''Naming'')])]"

definition zenith_report :: "(string \<times> pyval) list" where
  "zenith_report =
     [(''ok'', PBool False),
      (''missing'',
         PList [PDict [(''what'', PStr (asc ''tool name'')),
                       (''evidence'', PStr (asc ''The tool is called Zenith''))]]),
      (''suggested_card_titles'', PList [])]"

definition tagged_report :: "(string \<times> pyval) list" where
  "tagged_report =
     [(''ok'', PBool False),
      (''missing'',
         PList [PDict [(''what'', PStr (asc ''tool name'')),
                       (''evidence'', PStr (asc ''The tool is called Zenith''))]]),
      (''suggested_card_titles'', PList []),
      (''missing_sanitized_removed'', PInt 7)]"

definition parse_error_report :: "(string \<times> pyval) list" where
  "parse_error_report =
     [(''ok'', PBool False),
      (''missing'', PList [PStr (asc ''judge_parse_error: ValueError'')]),
      (''suggested_card_titles'', PList [])]"

text \<open>
  A small environment: lower-casing for Basic Latin and Cyrillic, a digest that only
  adds up, and glob matching with \<open>*\<close> as the one wildcard.
\<close>

definition lower_basic :: "ustring \<Rightarrow> ustring" where
  "lower_basic s =
     map (\<lambda>c. if (65 \<le> c \<and> c \<le> 90) \<or> (1040 \<le> c \<and> c \<le> 1071) then c + 32
              else if 1024 \<le> c \<and> c \<le> 1039 then c + 80
              else c) s"

definition toy_digest :: "ustring \<Rightarrow> ustring" where
  "toy_digest s = digits (100000000000 + sum_list s) @ asc ''0123456789abcdef''"

fun star_match :: "ustring \<Rightarrow> ustring \<Rightarrow> bool" where
  "star_match [] [] = True"
| "star_match [] (c # cs) = False"
| "star_match (p # ps) [] = (p = 42 \<and> star_match ps [])"
| "star_match (p # ps) (c # cs) =
     (if p = 42 then star_match ps (c # cs) \<or> star_match (p # ps) cs
      else p = c \<and> star_match ps cs)"

definition intro_doc :: ustring where
  "intro_doc = asc ''# Intro'' @ [10] @ asc ''Acme does X.''"

definition intro_rel :: ustring where
  "intro_rel = asc ''intro.md''"

definition empty_world :: world where
  "empty_world = \<lparr>calls = [], cards_md = []\<rparr>"

definition good_card :: card where
  "good_card =
     \<lparr>c_title = asc ''Acme'', c_description = asc ''Acme and X'',
      c_content_md = asc ''Acme does X.'', c_key_terms = [asc ''Acme''], c_entities = []\<rparr>"

definition better_card :: card where
  "better_card =
     \<lparr>c_title = asc ''Acme in full'', c_description = asc ''Acme and what it does.'',
      c_content_md = asc ''Acme does X.'', c_key_terms = [asc ''Acme''], c_entities = []\<rparr>"

definition marker_card :: card where
  "marker_card =
     \<lparr>c_title = asc ''Intro'', c_description = asc ''Acme'',
      c_content_md = FALLBACK_MARKER, c_key_terms = [], c_entities = []\<rparr>"

definition gap_report :: judge_result where
  "gap_report =
     \<lparr>jr_ok = False,
      jr_missing = [\<lparr>m_what = asc ''what Acme does'', m_evidence = asc ''Acme does X.''\<rparr>],
      jr_suggested_card_titles = []\<rparr>"

definition fine_report :: judge_result where
  "fine_report = \<lparr>jr_ok = True, jr_missing = [], jr_suggested_card_titles = []\<rparr>"

text \<open>
  Four behaviours of the two capabilities: the generator always answers with the marker
  card and the validator reports an evidenced gap; the generator always fails; the
  generator answers well and the validator reports an evidenced gap, the refinement
  giving a better card; the generator answers well and the validator is satisfied.
\<close>

definition marker_env :: env where
  "marker_env =
     \<lparr>str_lower = lower_basic, sha256_hexdigest = toy_digest, glob_match = star_match,
      generator = (\<lambda>n req. Inr [marker_card]),
      validator = (\<lambda>n req. Inr gap_report)\<rparr>"

definition failing_env :: env where
  "failing_env =
     \<lparr>str_lower = lower_basic, sha256_hexdigest = toy_digest, glob_match = star_match,
      generator = (\<lambda>n req. Inl (Exn ''TimeoutError'' [])),
      validator = (\<lambda>n req. Inl (Exn ''TimeoutError'' []))\<rparr>"

definition refining_env :: env where
  "refining_env =
     \<lparr>str_lower = lower_basic, sha256_hexdigest = toy_digest, glob_match = star_match,
      generator = (\<lambda>n req. if g_existing_cards req = None then Inr [good_card]
                            else Inr [better_card]),
      validator = (\<lambda>n req. Inr gap_report)\<rparr>"

definition fine_env :: env where
  "fine_env =
     \<lparr>str_lower = lower_basic, sha256_hexdigest = toy_digest, glob_match = star_match,
      generator = (\<lambda>n req. Inr [good_card]),
      validator = (\<lambda>n req. Inr fine_report)\<rparr>"

text \<open>A knowledge base with the one document \<open>intro.md\<close>, and cards to write.\<close>

definition intro_sha :: ustring where
  "intro_sha = asc ''5e3f1c0a9b7d2e4f6a8c0b1d3f5e7a9c1b3d5f7e9a0c2b4d6f8e0a1c3b5d7f9e''"

definition intro_file :: origin_file where
  "intro_file = \<lparr>o_read_text = Inr intro_doc, o_sha256 = intro_sha\<rparr>"

definition example_kb :: kb where
  "example_kb =
     \<lparr>origins_dir = [asc ''kb'', asc ''origins''],
      cards_md_dir = asc ''kb/cards_md'',
      origin_files = [([asc ''kb'', asc ''origins'', asc ''intro.md''], intro_file)],
      unlink_error = (\<lambda>n. False),
      write_error = (\<lambda>n. None)\<rparr>"

definition blank_card :: card where
  "blank_card =
     \<lparr>c_title = asc ''Acme'', c_description = asc '' '',
      c_content_md = asc ''Acme does X.'', c_key_terms = [], c_entities = []\<rparr>"

definition good_name :: ustring where
  "good_name = card_filename (card_id fine_env intro_rel intro_sha 0 (asc ''Acme'')) (asc ''intro'')"

definition first_run :: "(exn + upsert_result) \<times> world" where
  "first_run = kb_upsert_cards_for_markdown fine_env example_kb empty_world intro_rel"

definition second_run :: "(exn + upsert_result) \<times> world" where
  "second_run = kb_upsert_cards_for_markdown fine_env example_kb (snd first_run) intro_rel"

text \<open>
  A knowledge base whose first document is no valid UTF-8, one with a directory beside
  the origins directory whose name begins with the same letters, and card directories
  for the coverage analysis.
\<close>

definition binary_file :: origin_file where
  "binary_file =
     \<lparr>o_read_text = Inl (Exn ''UnicodeDecodeError'' (asc ''invalid start byte'')),
      o_sha256 = intro_sha\<rparr>"

definition broken_kb :: kb where
  "broken_kb =
     \<lparr>origins_dir = [asc ''kb'', asc ''origins''],
      cards_md_dir = asc ''kb/cards_md'',
      origin_files =
        [([asc ''kb'', asc ''origins'', asc ''intro.md''], intro_file),
         ([asc ''kb'', asc ''origins'', asc ''a.md''], binary_file)],
      unlink_error = (\<lambda>n. False),
      write_error = (\<lambda>n. None)\<rparr>"

definition secret_file :: origin_file where
  "secret_file = \<lparr>o_read_text = Inr (asc ''top secret''), o_sha256 = intro_sha\<rparr>"

definition sibling_kb :: kb where
  "sibling_kb =
     \<lparr>origins_dir = [asc ''kb'', asc ''origins''],
      cards_md_dir = asc ''kb/cards_md'',
      origin_files =
        [([asc ''kb'', asc ''origins'', asc ''intro.md''], intro_file),
         ([asc ''kb'', asc ''origins_old'', asc ''secret.md''], secret_file)],
      unlink_error = (\<lambda>n. False),
      write_error = (\<lambda>n. None)\<rparr>"

definition escaping_path :: ustring where
  "escaping_path = asc ''../origins_old/secret.md''"

definition current_card :: ustring where
  "current_card =
     asc ''-- Acme --'' @ [10, 10] @ asc ''Acme does X.'' @ [10, 10] @
     asc ''<!-- source: origins/intro.md source_sha256: '' @ intro_sha @ asc '' -->'' @ [10]"

definition fresh_world :: world where
  "fresh_world = \<lparr>calls = [], cards_md = [(asc ''card_1_intro.md'', Inr current_card)]\<rparr>"

definition locked_world :: world where
  "locked_world =
     \<lparr>calls = [],
      cards_md = [(asc ''card_1_intro.md'', Inr current_card),
                  (asc ''card_2_intro.md'', Inl (Exn ''PermissionError'' (asc ''denied'')))]\<rparr>"

definition intro_md :: "ustring list \<times> origin_file" where
  "intro_md = ([asc ''kb'', asc ''origins'', asc ''intro.md''], intro_file)"

section \<open>Facts about the string functions\<close>

lemma py_contains_sublist: "py_contains sub s = sublist sub s"
  by (induction s) (auto simp: sublist_Cons_right)

lemma split_ws_dropWhile: "split_ws [] (dropWhile py_isspace s) = split_ws [] s"
  by (induction s) auto

lemma split_ws_all_space:
  "\<forall>c\<in>set ws. py_isspace c \<Longrightarrow> split_ws cur ws = (if cur = [] then [] else [rev cur])"
  by (induction ws arbitrary: cur) auto

lemma split_ws_trailing:
  "\<forall>c\<in>set ws. py_isspace c \<Longrightarrow> split_ws cur (s @ ws) = split_ws cur s"
  by (induction s arbitrary: cur) (auto simp: split_ws_all_space)

lemma strip_decomp:
  "dropWhile py_isspace s = py_strip s @ rev (takeWhile py_isspace (rev (dropWhile py_isspace s)))"
  unfolding py_strip_def by (metis takeWhile_dropWhile_id rev_append rev_rev_ident)

lemma py_split_strip: "py_split (py_strip s) = py_split s"
proof -
  let ?ws = "rev (takeWhile py_isspace (rev (dropWhile py_isspace s)))"
  have ws: "\<forall>c\<in>set ?ws. py_isspace c"
    by (auto dest: set_takeWhileD)
  have "py_split s = split_ws [] (dropWhile py_isspace s)"
    by (simp add: py_split_def split_ws_dropWhile)
  also have "\<dots> = split_ws [] (py_strip s @ ?ws)"
    using strip_decomp [of s] by simp
  also have "\<dots> = split_ws [] (py_strip s)"
    using ws by (rule split_ws_trailing)
  finally show ?thesis by (simp add: py_split_def)
qed

lemma normalize_ws_strip: "normalize_ws (py_strip s) = normalize_ws s"
  by (simp add: normalize_ws_def py_split_strip)

lemma split_ws_nonempty_words:
  "w \<in> set (split_ws cur s) \<Longrightarrow> w \<noteq> []"
  by (induction s arbitrary: cur) (auto split: if_splits)

lemma split_ws_Nil_iff:
  "split_ws cur s = [] \<longleftrightarrow> cur = [] \<and> (\<forall>c\<in>set s. py_isspace c)"
  by (induction s arbitrary: cur) auto

lemma py_join_Nil_iff:
  "\<forall>w\<in>set ws. w \<noteq> [] \<Longrightarrow> py_join sep ws = [] \<longleftrightarrow> ws = []"
  by (induction sep ws rule: py_join.induct) auto

lemma normalize_ws_Nil_iff: "normalize_ws s = [] \<longleftrightarrow> (\<forall>c\<in>set s. py_isspace c)"
proof -
  have "\<forall>w\<in>set (py_split s). w \<noteq> []"
    by (auto simp: py_split_def dest: split_ws_nonempty_words)
  then have "normalize_ws s = [] \<longleftrightarrow> py_split s = []"
    unfolding normalize_ws_def by (rule py_join_Nil_iff)
  then show ?thesis by (simp add: py_split_def split_ws_Nil_iff)
qed

lemma py_strip_Nil_iff: "py_strip s = [] \<longleftrightarrow> (\<forall>c\<in>set s. py_isspace c)"
proof
  assume "py_strip s = []"
  then have "dropWhile py_isspace s = rev (takeWhile py_isspace (rev (dropWhile py_isspace s)))"
    using strip_decomp [of s] by simp
  then have "\<forall>c\<in>set (dropWhile py_isspace s). py_isspace c"
    by (metis set_rev set_takeWhileD)
  then have "dropWhile py_isspace s = []"
    by (metis dropWhile_eq_Nil_conv dropWhile_idem)
  then show "\<forall>c\<in>set s. py_isspace c"
    by simp
next
  assume "\<forall>c\<in>set s. py_isspace c"
  then have d: "dropWhile py_isspace s = []" by simp
  show "py_strip s = []" unfolding py_strip_def d by simp
qed

section \<open>The sanitizer filters by evidence\<close>

lemma keep_test_iff:
  "(evidence_of d \<noteq> [] \<and> py_contains (normalize_ws (evidence_of d)) (normalize_ws doc))
   = evidence_grounded doc (PDict d)"
  by (simp add: evidence_of_def evidence_text_def normalize_ws_strip py_contains_sublist
      py_strip_Nil_iff normalize_ws_Nil_iff)

lemma sanitize_loop_filter:
  "sanitize_loop (normalize_ws doc) items kept n =
     (kept @ filter (evidence_grounded doc) items,
      n + length (filter (\<lambda>i. \<not> evidence_grounded doc i) items))"
proof (induction items arbitrary: kept n)
  case Nil
  then show ?case by simp
next
  case (Cons item rest)
  show ?case
  proof (cases item)
    case (PDict d)
    then show ?thesis
      using Cons.IH keep_test_iff [of d doc] by (simp add: Let_def)
  qed (simp_all add: Cons.IH)
qed

lemmas eval_strings = asc_def normalize_ws_def py_split_def py_isspace_def py_strip_def

lemma sanitize_unfold:
  "sanitize_judge_meta doc (PDict jm) =
     (let kept = filter (evidence_grounded doc) (missing_in jm);
          n = dropped_count doc jm;
          out0 = AList.update ''missing'' (PList kept) jm;
          out1 = (if n \<noteq> 0
                  then AList.update ''missing_sanitized_removed'' (PInt (int n)) out0
                  else out0)
      in if \<not> py_truthy (dict_get jm ''ok'' (PBool False)) \<and> kept = [] \<and>
            is_list (dict_get jm ''missing'' PNone)
         then AList.update ''ok_sanitized_overridden'' (PBool True)
                (AList.update ''ok'' (PBool True) out1)
         else out1)"
  by (simp add: sanitize_judge_meta_def sanitize_loop_filter dropped_count_def Let_def
      dict_get_def update_conv')

text \<open>
  Claim C3 (evidence sanitization). For every document text and every report, the
  \<open>missing\<close> list of the sanitized report is the input's list filtered by
  \<open>evidence_grounded\<close>, in order: a structured item stays exactly when its evidence
  string, with whitespace runs collapsed to single spaces, is non-empty and occurs
  literally in the equally normalized document; a non-structured item always stays. When
  items were dropped, their number is stored under \<open>missing_sanitized_removed\<close>.
\<close>

theorem sanitize_keeps_grounded_evidence:
  "map_of (sanitize_judge_meta doc (PDict jm)) ''missing'' =
     Some (PList (filter (evidence_grounded doc) (missing_in jm))) \<and>
   (dropped_count doc jm \<noteq> 0 \<longrightarrow>
      map_of (sanitize_judge_meta doc (PDict jm)) ''missing_sanitized_removed'' =
        Some (PInt (int (dropped_count doc jm))))"
  by (simp add: sanitize_unfold Let_def update_conv')

lemma acme_grounded:
  "filter (evidence_grounded acme_doc) (missing_in acme_report) =
     [PDict [(''what'', PStr (asc ''tool name'')),
             (''evidence'', PStr (asc ''The tool  is called Acme''))]]"
  by (simp add: acme_doc_def acme_report_def missing_in_def dict_get_def py_or_def
      evidence_text_def eval_strings py_contains_sublist [symmetric])

text \<open>
  The example of the specification: in a document that says "The tool is called Acme",
  the item quoting that sentence (here with a doubled space) stays and the item quoting
  "The tool is called Zenith" is dropped and counted.
\<close>

theorem sanitize_keeps_grounded_evidence_witness:
  "dropped_count acme_doc acme_report \<noteq> 0 \<and>
   map_of (sanitize_judge_meta acme_doc (PDict acme_report)) ''missing'' =
     Some (PList [PDict [(''what'', PStr (asc ''tool name'')),
                         (''evidence'', PStr (asc ''The tool  is called Acme''))]]) \<and>
   map_of (sanitize_judge_meta acme_doc (PDict acme_report)) ''missing_sanitized_removed'' =
     Some (PInt 1)"
proof -
  have d: "dropped_count acme_doc acme_report = 1"
    by (simp add: dropped_count_def acme_doc_def acme_report_def missing_in_def dict_get_def
        py_or_def evidence_text_def eval_strings py_contains_sublist [symmetric])
  show ?thesis
    using sanitize_keeps_grounded_evidence [of acme_doc acme_report] acme_grounded d by simp
qed

text \<open>
  Claim C4 as stated does not hold. The report \<open>judge_once\<close> builds when the
  validator call fails has a negative verdict and one plain-string entry. No structured
  item survives its sanitization, yet the verdict stays negative and is not flagged: the
  test of the source is on the whole kept list, which still holds the string entry.
\<close>

theorem flip_claim_counterexample:
  "\<not> py_truthy (dict_get parse_error_report ''ok'' (PBool False)) \<and>
   filter is_dict (missing_in (sanitize_judge_meta acme_doc (PDict parse_error_report))) = [] \<and>
   map_of (sanitize_judge_meta acme_doc (PDict parse_error_report)) ''ok'' = Some (PBool False) \<and>
   map_of (sanitize_judge_meta acme_doc (PDict parse_error_report)) ''ok_sanitized_overridden'' = None"
  by (simp add: sanitize_unfold parse_error_report_def dict_get_def missing_in_def py_or_def
      dropped_count_def Let_def)

text \<open>
  Claim C4, amended. When the original verdict is negative, the input's \<open>missing\<close>
  is a list and nothing at all survives the filter (no structured item with evidence in
  the document and no non-structured item), the verdict is flipped to positive and
  flagged as overridden. Hence a negative sanitized verdict is only honoured when some
  entry survived, structured or not, or \<open>missing\<close> was not a list. In every other
  case the \<open>ok\<close> entry is the input's.
\<close>

theorem sanitize_flip_when_nothing_survives:
  "(\<not> py_truthy (dict_get jm ''ok'' (PBool False)) \<and>
    filter (evidence_grounded doc) (missing_in jm) = [] \<and>
    is_list (dict_get jm ''missing'' PNone) \<longrightarrow>
      map_of (sanitize_judge_meta doc (PDict jm)) ''ok'' = Some (PBool True) \<and>
      map_of (sanitize_judge_meta doc (PDict jm)) ''ok_sanitized_overridden'' = Some (PBool True)) \<and>
   (\<not> py_truthy (dict_get (sanitize_judge_meta doc (PDict jm)) ''ok'' (PBool False)) \<longrightarrow>
      filter (evidence_grounded doc) (missing_in jm) \<noteq> [] \<or>
      \<not> is_list (dict_get jm ''missing'' PNone)) \<and>
   (py_truthy (dict_get jm ''ok'' (PBool False)) \<or>
    filter (evidence_grounded doc) (missing_in jm) \<noteq> [] \<or>
    \<not> is_list (dict_get jm ''missing'' PNone) \<longrightarrow>
      map_of (sanitize_judge_meta doc (PDict jm)) ''ok'' = map_of jm ''ok'')"
  by (auto simp: sanitize_unfold Let_def update_conv' dict_get_def)

lemma zenith_grounded:
  "filter (evidence_grounded acme_doc) (missing_in zenith_report) = []"
  by (simp add: acme_doc_def zenith_report_def missing_in_def dict_get_def py_or_def
      evidence_text_def eval_strings py_contains_sublist [symmetric])

theorem sanitize_flip_when_nothing_survives_witness:
  "\<not> py_truthy (dict_get zenith_report ''ok'' (PBool False)) \<and>
   filter (evidence_grounded acme_doc) (missing_in zenith_report) = [] \<and>
   is_list (dict_get zenith_report ''missing'' PNone) \<and>
   map_of (sanitize_judge_meta acme_doc (PDict zenith_report)) ''ok'' = Some (PBool True) \<and>
   map_of (sanitize_judge_meta acme_doc (PDict zenith_report)) ''ok_sanitized_overridden'' =
     Some (PBool True) \<and>
   filter (evidence_grounded acme_doc) (missing_in acme_report) \<noteq> [] \<and>
   map_of (sanitize_judge_meta acme_doc (PDict acme_report)) ''ok'' = Some (PBool False)"
proof -
  have a: "\<not> py_truthy (dict_get zenith_report ''ok'' (PBool False))"
    by (simp add: zenith_report_def dict_get_def)
  have b: "is_list (dict_get zenith_report ''missing'' PNone)"
    by (simp add: zenith_report_def dict_get_def)
  have c: "map_of acme_report ''ok'' = Some (PBool False)"
    by (simp add: acme_report_def)
  show ?thesis
    using sanitize_flip_when_nothing_survives [of zenith_report acme_doc]
      sanitize_flip_when_nothing_survives [of acme_report acme_doc]
      a b c zenith_grounded acme_grounded
    by simp
qed

text \<open>
  Claim C10 as stated does not hold. A report that already has an entry under
  \<open>missing_sanitized_removed\<close> does not keep it when an item is dropped: the entry
  \<open>7\<close> of the input is replaced by the count \<open>1\<close>, although the key is neither
  \<open>missing\<close> nor \<open>ok\<close>. And the empty report comes back with the key
  \<open>missing\<close>, which is none of the two bookkeeping keys.
\<close>

theorem frame_claim_counterexample:
  "''missing_sanitized_removed'' \<in> fst ` set tagged_report \<and>
   map_of tagged_report ''missing_sanitized_removed'' = Some (PInt 7) \<and>
   map_of (sanitize_judge_meta acme_doc (PDict tagged_report)) ''missing_sanitized_removed'' =
     Some (PInt 1) \<and>
   sanitize_judge_meta acme_doc (PDict []) = [(''missing'', PList [])]"
proof -
  have g: "filter (evidence_grounded acme_doc) (missing_in tagged_report) = []"
    by (simp add: acme_doc_def tagged_report_def missing_in_def dict_get_def py_or_def
        evidence_text_def eval_strings py_contains_sublist [symmetric])
  have d: "dropped_count acme_doc tagged_report = 1"
    by (simp add: dropped_count_def acme_doc_def tagged_report_def missing_in_def dict_get_def
        py_or_def evidence_text_def eval_strings py_contains_sublist [symmetric])
  have a: "''missing_sanitized_removed'' \<in> fst ` set tagged_report"
    "map_of tagged_report ''missing_sanitized_removed'' = Some (PInt 7)"
    by (simp_all add: tagged_report_def)
  have b: "map_of (sanitize_judge_meta acme_doc (PDict tagged_report))
      ''missing_sanitized_removed'' = Some (PInt 1)"
    by (simp add: sanitize_unfold Let_def update_conv' g d)
  have c: "sanitize_judge_meta acme_doc (PDict []) = [(''missing'', PList [])]"
    by (simp add: sanitize_unfold Let_def dropped_count_def missing_in_def dict_get_def py_or_def)
  from a b c show ?thesis by simp
qed

text \<open>
  Claim C10, amended (frame property of the sanitizer). For every report: each key other
  than \<open>missing\<close>, \<open>ok\<close> and the two bookkeeping keys has the same entry before and
  after, so a report that does not already carry a bookkeeping key agrees with its
  sanitized form on each of its keys other than \<open>missing\<close> and \<open>ok\<close>, and
  \<open>suggested_card_titles\<close> and every other field of the validator pass through. No
  key is lost; the only keys that can be new are \<open>missing\<close>, \<open>ok\<close> and the two
  bookkeeping keys, and \<open>missing\<close> is always there. The entry under
  \<open>missing_sanitized_removed\<close> is the number of dropped items when that is not zero,
  whatever the input had there, and otherwise the input's; the entry under
  \<open>ok_sanitized_overridden\<close> is \<open>True\<close> when the verdict is flipped and otherwise
  the input's. A truthy \<open>ok\<close> is left as it is, and when \<open>ok\<close> changes, it was
  falsy and becomes \<open>True\<close>.
\<close>

theorem sanitize_frame:
  "(\<forall>k. k \<noteq> ''missing'' \<and> k \<noteq> ''ok'' \<and> k \<notin> bookkeeping_keys \<longrightarrow>
      map_of (sanitize_judge_meta doc (PDict jm)) k = map_of jm k) \<and>
   (bookkeeping_keys \<inter> fst ` set jm = {} \<longrightarrow>
      (\<forall>k\<in>fst ` set jm. k \<noteq> ''missing'' \<and> k \<noteq> ''ok'' \<longrightarrow>
         map_of (sanitize_judge_meta doc (PDict jm)) k = map_of jm k)) \<and>
   fst ` set jm \<subseteq> fst ` set (sanitize_judge_meta doc (PDict jm)) \<and>
   fst ` set (sanitize_judge_meta doc (PDict jm)) \<subseteq>
      fst ` set jm \<union> {''missing'', ''ok''} \<union> bookkeeping_keys \<and>
   ''missing'' \<in> fst ` set (sanitize_judge_meta doc (PDict jm)) \<and>
   map_of (sanitize_judge_meta doc (PDict jm)) ''missing_sanitized_removed'' =
     (if dropped_count doc jm \<noteq> 0 then Some (PInt (int (dropped_count doc jm)))
      else map_of jm ''missing_sanitized_removed'') \<and>
   map_of (sanitize_judge_meta doc (PDict jm)) ''ok_sanitized_overridden'' =
     (if \<not> py_truthy (dict_get jm ''ok'' (PBool False)) \<and>
         filter (evidence_grounded doc) (missing_in jm) = [] \<and>
         is_list (dict_get jm ''missing'' PNone)
      then Some (PBool True) else map_of jm ''ok_sanitized_overridden'') \<and>
   (py_truthy (dict_get jm ''ok'' (PBool False)) \<longrightarrow>
      map_of (sanitize_judge_meta doc (PDict jm)) ''ok'' = map_of jm ''ok'') \<and>
   (map_of (sanitize_judge_meta doc (PDict jm)) ''ok'' \<noteq> map_of jm ''ok'' \<longrightarrow>
      \<not> py_truthy (dict_get jm ''ok'' (PBool False)) \<and>
      map_of (sanitize_judge_meta doc (PDict jm)) ''ok'' = Some (PBool True))"
proof -
  let ?out = "sanitize_judge_meta doc (PDict jm)"
  have untouched: "map_of ?out k = map_of jm k"
    if "k \<noteq> ''missing''" "k \<noteq> ''ok''" "k \<notin> bookkeeping_keys" for k
    using that by (simp add: sanitize_unfold Let_def update_conv' bookkeeping_keys_def)
  have keys: "fst ` set ?out \<subseteq> fst ` set jm \<union> {''missing'', ''ok''} \<union> bookkeeping_keys"
    by (auto simp: sanitize_unfold Let_def dom_update bookkeeping_keys_def)
  have keeps: "fst ` set jm \<subseteq> fst ` set ?out"
    by (auto simp: sanitize_unfold Let_def dom_update)
  have there: "''missing'' \<in> fst ` set ?out"
    by (simp add: sanitize_unfold Let_def dom_update)
  have removed: "map_of ?out ''missing_sanitized_removed'' =
     (if dropped_count doc jm \<noteq> 0 then Some (PInt (int (dropped_count doc jm)))
      else map_of jm ''missing_sanitized_removed'')"
    by (simp add: sanitize_unfold Let_def update_conv')
  have overridden: "map_of ?out ''ok_sanitized_overridden'' =
     (if \<not> py_truthy (dict_get jm ''ok'' (PBool False)) \<and>
         filter (evidence_grounded doc) (missing_in jm) = [] \<and>
         is_list (dict_get jm ''missing'' PNone)
      then Some (PBool True) else map_of jm ''ok_sanitized_overridden'')"
    by (simp add: sanitize_unfold Let_def update_conv')
  have ok1: "map_of ?out ''ok'' = map_of jm ''ok''"
    if "py_truthy (dict_get jm ''ok'' (PBool False))"
    using that by (simp add: sanitize_unfold Let_def update_conv')
  have ok2: "\<not> py_truthy (dict_get jm ''ok'' (PBool False)) \<and> map_of ?out ''ok'' = Some (PBool True)"
    if "map_of ?out ''ok'' \<noteq> map_of jm ''ok''"
    using that by (simp add: sanitize_unfold Let_def update_conv' split: if_splits)
  have first: "(\<forall>k. k \<noteq> ''missing'' \<and> k \<noteq> ''ok'' \<and> k \<notin> bookkeeping_keys \<longrightarrow>
      map_of ?out k = map_of jm k) \<and>
   (bookkeeping_keys \<inter> fst ` set jm = {} \<longrightarrow>
      (\<forall>k\<in>fst ` set jm. k \<noteq> ''missing'' \<and> k \<noteq> ''ok'' \<longrightarrow>
         map_of ?out k = map_of jm k))"
    using untouched by blast
  have last: "(py_truthy (dict_get jm ''ok'' (PBool False)) \<longrightarrow>
      map_of ?out ''ok'' = map_of jm ''ok'') \<and>
   (map_of ?out ''ok'' \<noteq> map_of jm ''ok'' \<longrightarrow>
      \<not> py_truthy (dict_get jm ''ok'' (PBool False)) \<and>
      map_of ?out ''ok'' = Some (PBool True))"
    using ok1 ok2 by blast
  show ?thesis
    using first keeps keys there removed overridden last
    by (intro conjI) (erule conjunct1, erule conjunct2, assumption+, erule conjunct1,
      erule conjunct2)
qed

theorem sanitize_frame_witness:
  "bookkeeping_keys \<inter> fst ` set acme_report = {} \<and>
   ''suggested_card_titles'' \<in> fst ` set acme_report \<and>
   map_of (sanitize_judge_meta acme_doc (PDict acme_report)) ''suggested_card_titles'' =
     Some (PList [PStr (asc ''Naming'')]) \<and>
   map_of (sanitize_judge_meta acme_doc (PDict zenith_report)) ''ok'' \<noteq> map_of zenith_report ''ok'' \<and>
   map_of (sanitize_judge_meta acme_doc (PDict zenith_report)) ''ok'' = Some (PBool True)"
proof -
  have a: "bookkeeping_keys \<inter> fst ` set acme_report = {}"
    by (simp add: bookkeeping_keys_def acme_report_def)
  have b: "''suggested_card_titles'' \<in> fst ` set acme_report"
    by (simp add: acme_report_def)
  have c: "map_of acme_report ''suggested_card_titles'' = Some (PList [PStr (asc ''Naming'')])"
    by (simp add: acme_report_def)
  have d: "map_of (sanitize_judge_meta acme_doc (PDict zenith_report)) ''ok'' \<noteq> map_of zenith_report ''ok''"
    using zenith_grounded
    by (simp add: sanitize_unfold Let_def update_conv' zenith_report_def dict_get_def)
  from sanitize_frame [of acme_doc acme_report, THEN conjunct2, THEN conjunct1] a
  have "\<forall>k\<in>fst ` set acme_report. k \<noteq> ''missing'' \<and> k \<noteq> ''ok'' \<longrightarrow>
          map_of (sanitize_judge_meta acme_doc (PDict acme_report)) k = map_of acme_report k"
    by (rule mp)
  then have "''suggested_card_titles'' \<noteq> ''missing'' \<and> ''suggested_card_titles'' \<noteq> ''ok'' \<longrightarrow>
          map_of (sanitize_judge_meta acme_doc (PDict acme_report)) ''suggested_card_titles'' =
          map_of acme_report ''suggested_card_titles''"
    using b by (rule bspec)
  then have e: "map_of (sanitize_judge_meta acme_doc (PDict acme_report)) ''suggested_card_titles'' =
     Some (PList [PStr (asc ''Naming'')])"
    by (simp add: c)
  have f: "map_of (sanitize_judge_meta acme_doc (PDict zenith_report)) ''ok'' = Some (PBool True)"
    using sanitize_frame [of acme_doc zenith_report, THEN conjunct2, THEN conjunct2,
        THEN conjunct2, THEN conjunct2, THEN conjunct2, THEN conjunct2, THEN conjunct2,
        THEN conjunct2, THEN mp, OF d]
    by (rule conjunct2)
  show ?thesis
    using a b e d f by (intro conjI) assumption+
qed

section \<open>The synthesis pipeline: retry and refinement bounds\<close>

lemma judge_once_calls:
  "calls (snd (judge_once e w req)) = calls w @ [JudgeCall req]"
  by (simp add: judge_once_def Let_def split: sum.split)

lemma refine_guidance_not_retry: "refine_guidance jm \<noteq> retry_guidance"
proof
  assume eq: "refine_guidance jm = retry_guidance"
  have "last (butlast (refine_guidance jm)) = 1086"
    by (simp add: refine_guidance_def guidance_tail_def Let_def butlast_append)
  moreover have "last (butlast retry_guidance) = 1080"
    by (simp add: retry_guidance_def)
  ultimately show False using eq by simp
qed

lemma first_generation_calls:
  "calls (snd (first_generation e w rel text)) =
     calls w @ (if first_attempt_rejected e w rel text
                then [GenCall (first_request rel text), GenCall (retry_request rel text)]
                else [GenCall (first_request rel text)])"
  by (auto simp: first_generation_def first_attempt_rejected_def first_request_def
      retry_request_def generate_cards_once_def Let_def split: sum.splits prod.splits)

lemma first_generation_cards:
  "fst (first_generation e w rel text) =
     (if first_attempt_rejected e w rel text
      then (case generator e (Suc (length (calls w))) (retry_request rel text) of
              Inl ex \<Rightarrow> [] | Inr cs \<Rightarrow> cs)
      else (case generator e (length (calls w)) (first_request rel text) of
              Inl ex \<Rightarrow> [] | Inr cs \<Rightarrow> cs))"
  by (auto simp: first_generation_def first_attempt_rejected_def first_request_def
      retry_request_def generate_cards_once_def Let_def split: sum.splits prod.splits)

lemma judge_and_refine_calls:
  "calls (snd (judge_and_refine e w rel text raw)) =
     calls w @
     (if verdict_ok (verdict_of e w rel text raw)
      then [JudgeCall (judge_request_of rel text raw)]
      else [JudgeCall (judge_request_of rel text raw),
            GenCall (refine_request rel text (verdict_of e w rel text raw) raw)])"
  by (auto simp: judge_and_refine_def verdict_ok_def verdict_of_def judge_request_of_def
      refine_request_def generate_cards_once_def judge_once_def Let_def
      split: sum.splits prod.splits)

lemma judge_and_refine_result:
  "fst (judge_and_refine e w rel text raw) =
     (let verdict = verdict_of e w rel text raw;
          quality = [(''judge'', PDict verdict)]
      in if verdict_ok verdict
         then (raw, AList.update ''refinement_applied'' (PBool False) quality)
         else (case refinement_answer e w rel text raw of
                 Inr refined \<Rightarrow>
                   if refined \<noteq> []
                   then (refined, AList.update ''refinement_applied'' (PBool True) quality)
                   else (raw, AList.update ''refinement_applied'' (PBool False) quality)
               | Inl ex \<Rightarrow>
                   (raw, AList.update ''refinement_error'' (PStr (asc (exn_kind ex)))
                           (AList.update ''refinement_applied'' (PBool False) quality))))"
  by (auto simp: judge_and_refine_def verdict_ok_def verdict_of_def judge_request_of_def
      refine_request_def refinement_answer_def generate_cards_once_def judge_once_def Let_def
      split: sum.splits prod.splits)

lemma synthesize_unfold:
  "synthesize e w rel text title =
     (if fst (first_generation e w rel text) = []
      then (([placeholder_card title], placeholder_quality), snd (first_generation e w rel text))
      else judge_and_refine e (snd (first_generation e w rel text)) rel text
             (fst (first_generation e w rel text)))"
  by (simp add: synthesize_def split: prod.splits)

lemma new_calls_append: "calls w' = calls w @ evs \<Longrightarrow> new_calls w w' = evs"
  by (simp add: new_calls_def)

lemma synthesize_calls:
  "calls (snd (synthesize e w rel text title)) =
     calls w @
     (if first_attempt_rejected e w rel text
      then [GenCall (first_request rel text), GenCall (retry_request rel text)]
      else [GenCall (first_request rel text)]) @
     (if fst (first_generation e w rel text) = [] then []
      else if verdict_ok (verdict_of e (snd (first_generation e w rel text)) rel text
                 (fst (first_generation e w rel text)))
      then [JudgeCall (judge_request_of rel text (fst (first_generation e w rel text)))]
      else [JudgeCall (judge_request_of rel text (fst (first_generation e w rel text))),
            GenCall (refine_request rel text
                       (verdict_of e (snd (first_generation e w rel text)) rel text
                          (fst (first_generation e w rel text)))
                       (fst (first_generation e w rel text)))])"
  by (simp add: synthesize_unfold judge_and_refine_calls first_generation_calls)

lemma is_retry_simps:
  "\<not> is_retry (first_request rel text)"
  "is_retry (retry_request rel text)"
  "\<not> is_retry (refine_request rel text jm raw)"
  using refine_guidance_not_retry [of jm]
  by (auto simp: is_retry_def first_request_def retry_request_def refine_request_def)

lemma is_refinement_simps:
  "\<not> is_refinement (first_request rel text)"
  "\<not> is_refinement (retry_request rel text)"
  "is_refinement (refine_request rel text jm raw)"
  by (simp_all add: is_refinement_def first_request_def retry_request_def refine_request_def)

lemma placeholder_has_marker:
  "py_contains FALLBACK_MARKER (c_content_md (placeholder_card title))"
  by (simp add: placeholder_card_def FALLBACK_MARKER_def)

lemma first_heading_cases:
  "first_heading ls fallback = fallback \<or>
   (\<exists>l\<in>set ls. prefix [35, 32] (py_strip l) \<and>
      first_heading ls fallback = py_strip (drop 2 (py_strip l)))"
  by (induction ls) (auto simp: Let_def)

text \<open>
  Claim C1, amended (retry bound). For every document: when the first answer of the
  generator is rejected (the call raised, or gave no card, or a card holds the failure
  marker or a denylisted phrase), the next call is the one retry, with the fixed guidance
  about the failed previous attempt, and no other call carries that guidance; when the
  first answer is accepted there is no retry. When the retry raises or gives no card,
  synthesis ends with exactly one placeholder card, whose title is the title passed in
  (the first heading of the document, or else the stem of its file name) and whose
  body holds the failure marker, with the placeholder quality report (verdict negative),
  after exactly these two generation calls and no validator call. A retry that gives
  cards, flagged or not, is taken as the candidate set: the validator is called on
  exactly these cards.
\<close>

theorem retry_bound:
  assumes syn: "synthesize e w rel text title = ((cards, quality), w')"
  shows
    "(first_attempt_rejected e w rel text \<longrightarrow>
        take 2 (new_calls w w') =
          [GenCall (first_request rel text), GenCall (retry_request rel text)] \<and>
        filter is_retry (gen_requests (new_calls w w')) = [retry_request rel text]) \<and>
     (\<not> first_attempt_rejected e w rel text \<longrightarrow>
        filter is_retry (gen_requests (new_calls w w')) = []) \<and>
     (first_attempt_rejected e w rel text \<and> retry_gave_nothing e w rel text \<longrightarrow>
        cards = [placeholder_card title] \<and>
        c_title (placeholder_card title) = title \<and>
        py_contains FALLBACK_MARKER (c_content_md (placeholder_card title)) \<and>
        quality = placeholder_quality \<and>
        \<not> verdict_ok (list_dict (dict_get quality ''judge'' PNone)) \<and>
        new_calls w w' = [GenCall (first_request rel text), GenCall (retry_request rel text)]) \<and>
     (\<forall>cs. first_attempt_rejected e w rel text \<and>
        generator e (Suc (length (calls w))) (retry_request rel text) = Inr cs \<and> cs \<noteq> [] \<longrightarrow>
        judge_requests (new_calls w w') = [judge_request_of rel text cs]) \<and>
     (title = extract_title text (path_stem rel) \<longrightarrow>
        title = path_stem rel \<or>
        (\<exists>l\<in>set (py_splitlines text). prefix [35, 32] (py_strip l) \<and>
           title = py_strip (drop 2 (py_strip l))))"
proof -
  have w': "w' = snd (synthesize e w rel text title)"
    and res: "(cards, quality) = fst (synthesize e w rel text title)"
    using syn by simp_all
  have nc: "new_calls w w' =
     (if first_attempt_rejected e w rel text
      then [GenCall (first_request rel text), GenCall (retry_request rel text)]
      else [GenCall (first_request rel text)]) @
     (if fst (first_generation e w rel text) = [] then []
      else if verdict_ok (verdict_of e (snd (first_generation e w rel text)) rel text
                 (fst (first_generation e w rel text)))
      then [JudgeCall (judge_request_of rel text (fst (first_generation e w rel text)))]
      else [JudgeCall (judge_request_of rel text (fst (first_generation e w rel text))),
            GenCall (refine_request rel text
                       (verdict_of e (snd (first_generation e w rel text)) rel text
                          (fst (first_generation e w rel text)))
                       (fst (first_generation e w rel text)))])"
    unfolding w' by (rule new_calls_append) (rule synthesize_calls)
  have a: "take 2 (new_calls w w') =
          [GenCall (first_request rel text), GenCall (retry_request rel text)] \<and>
        filter is_retry (gen_requests (new_calls w w')) = [retry_request rel text]"
    if "first_attempt_rejected e w rel text"
    using that by (simp add: nc is_retry_simps)
  have b: "filter is_retry (gen_requests (new_calls w w')) = []"
    if "\<not> first_attempt_rejected e w rel text"
    using that by (simp add: nc is_retry_simps)
  have no_cards: "fst (first_generation e w rel text) = []"
    if "first_attempt_rejected e w rel text" "retry_gave_nothing e w rel text"
    using that by (auto simp: first_generation_cards retry_gave_nothing_def split: sum.splits)
  have c: "cards = [placeholder_card title] \<and>
        c_title (placeholder_card title) = title \<and>
        py_contains FALLBACK_MARKER (c_content_md (placeholder_card title)) \<and>
        quality = placeholder_quality \<and>
        \<not> verdict_ok (list_dict (dict_get quality ''judge'' PNone)) \<and>
        new_calls w w' = [GenCall (first_request rel text), GenCall (retry_request rel text)]"
    if r: "first_attempt_rejected e w rel text" "retry_gave_nothing e w rel text"
  proof -
    have "fst (synthesize e w rel text title) = ([placeholder_card title], placeholder_quality)"
      by (simp add: synthesize_unfold no_cards [OF r])
    then have "(cards, quality) = ([placeholder_card title], placeholder_quality)"
      using res by simp
    then have cq: "cards = [placeholder_card title]" "quality = placeholder_quality"
      by simp_all
    have "\<not> verdict_ok (list_dict (dict_get placeholder_quality ''judge'' PNone))"
      by (simp add: placeholder_quality_def dict_get_def list_dict_def verdict_ok_def)
    moreover have "c_title (placeholder_card title) = title"
      by (simp add: placeholder_card_def)
    ultimately show ?thesis
      using cq placeholder_has_marker [of title] no_cards [OF r] r(1) by (simp add: nc)
  qed
  have j: "judge_requests (new_calls w w') = [judge_request_of rel text cs]"
    if "first_attempt_rejected e w rel text"
      "generator e (Suc (length (calls w))) (retry_request rel text) = Inr cs" "cs \<noteq> []" for cs
  proof -
    have "fst (first_generation e w rel text) = cs"
      using that by (simp add: first_generation_cards)
    with that show ?thesis by (simp add: nc)
  qed
  have d: "title = path_stem rel \<or>
        (\<exists>l\<in>set (py_splitlines text). prefix [35, 32] (py_strip l) \<and>
           title = py_strip (drop 2 (py_strip l)))"
    if "title = extract_title text (path_stem rel)"
    using that first_heading_cases [of "py_splitlines text" "path_stem rel"]
    by (simp add: extract_title_def)
  from a b c j d show ?thesis by blast
qed

lemma intro_title: "extract_title intro_doc (path_stem intro_rel) = asc ''Intro''"
  by (simp add: extract_title_def intro_doc_def intro_rel_def path_stem_def path_name_def
      path_parts_def name_suffix_def py_splitlines_def is_linebreak_def Let_def eval_strings)

lemma intro_stem: "path_stem intro_rel = asc ''intro''"
  by (simp add: intro_rel_def path_stem_def path_name_def
      path_parts_def name_suffix_def Let_def eval_strings)

lemma good_card_clean: "\<not> cards_have_generation_error fine_env [good_card]"
  by (simp add: fine_env_def good_card_def FALLBACK_MARKER_def bad_phrases_def lower_basic_def
      asc_def)

lemma marker_card_flagged: "cards_have_generation_error marker_env [marker_card]"
  by (simp add: marker_card_def FALLBACK_MARKER_def)

lemma gap_verdict:
  "sanitize_judge_meta intro_doc (PDict (model_dump gap_report)) =
     [(''ok'', PBool False),
      (''missing'', PList [PDict [(''what'', PStr (asc ''what Acme does'')),
                                  (''evidence'', PStr (asc ''Acme does X.''))]]),
      (''suggested_card_titles'', PList [])]"
  by (simp add: sanitize_judge_meta_def model_dump_def gap_report_def missing_item_dump_def
      missing_in_def dict_get_def py_or_def evidence_of_def intro_doc_def Let_def eval_strings)

lemma failing_rejected:
  "first_attempt_rejected failing_env empty_world intro_rel intro_doc"
  "retry_gave_nothing failing_env empty_world intro_rel intro_doc"
  by (simp_all add: first_attempt_rejected_def retry_gave_nothing_def failing_env_def)

lemma fine_accepted: "\<not> first_attempt_rejected fine_env empty_world intro_rel intro_doc"
  using good_card_clean by (simp add: first_attempt_rejected_def fine_env_def)

lemma empty_world_calls: "calls empty_world = []"
  by (simp add: empty_world_def)

lemma collapse3: "x = ((fst (fst x), snd (fst x)), snd x)"
  by simp

lemma marker_rejected: "first_attempt_rejected marker_env empty_world intro_rel intro_doc"
  by (simp add: first_attempt_rejected_def marker_env_def marker_card_def FALLBACK_MARKER_def)

lemma marker_candidate:
  "fst (first_generation marker_env empty_world intro_rel intro_doc) = [marker_card]"
  by (simp add: first_generation_cards marker_rejected) (simp add: marker_env_def)

lemma marker_verdict:
  "verdict_of marker_env w intro_rel intro_doc cs =
     [(''ok'', PBool False),
      (''missing'', PList [PDict [(''what'', PStr (asc ''what Acme does'')),
                                  (''evidence'', PStr (asc ''Acme does X.''))]]),
      (''suggested_card_titles'', PList [])]"
  using gap_verdict by (simp add: verdict_of_def judge_once_def marker_env_def Let_def)

theorem retry_bound_witness:
  "first_attempt_rejected failing_env empty_world intro_rel intro_doc \<and>
   retry_gave_nothing failing_env empty_world intro_rel intro_doc \<and>
   asc ''Intro'' = extract_title intro_doc (path_stem intro_rel) \<and>
   fst (fst (synthesize failing_env empty_world intro_rel intro_doc (asc ''Intro''))) =
     [placeholder_card (asc ''Intro'')] \<and>
   new_calls empty_world (snd (synthesize failing_env empty_world intro_rel intro_doc (asc ''Intro''))) =
     [GenCall (first_request intro_rel intro_doc), GenCall (retry_request intro_rel intro_doc)] \<and>
   \<not> first_attempt_rejected fine_env empty_world intro_rel intro_doc \<and>
   filter is_retry (gen_requests (new_calls empty_world
     (snd (synthesize fine_env empty_world intro_rel intro_doc (asc ''Intro''))))) = [] \<and>
   first_attempt_rejected marker_env empty_world intro_rel intro_doc \<and>
   generator marker_env (Suc (length (calls empty_world))) (retry_request intro_rel intro_doc) =
     Inr [marker_card] \<and>
   judge_requests (new_calls empty_world
     (snd (synthesize marker_env empty_world intro_rel intro_doc (asc ''Intro'')))) =
     [judge_request_of intro_rel intro_doc [marker_card]]"
proof -
  have g: "generator marker_env (Suc (length (calls empty_world)))
      (retry_request intro_rel intro_doc) = Inr [marker_card]"
    by (simp add: marker_env_def)
  show ?thesis
    using
      retry_bound [OF collapse3 [of "synthesize failing_env empty_world intro_rel intro_doc (asc ''Intro'')"]]
      retry_bound [OF collapse3 [of "synthesize fine_env empty_world intro_rel intro_doc (asc ''Intro'')"]]
      retry_bound [OF collapse3 [of "synthesize marker_env empty_world intro_rel intro_doc (asc ''Intro'')"]]
      failing_rejected fine_accepted intro_title marker_rejected g
    by simp
qed



text \<open>
  Claim C1 as stated does not hold. Here the generator answers every call with one card
  whose body is the failure marker, so the first answer and the retry both carry the
  marker. The retry's card set is not empty, so it is taken as it is: synthesis does not
  end with the placeholder card, the validator is called, and its evidenced gap leads to
  a third generation call.
\<close>

theorem retry_claim_counterexample:
  "generator marker_env 0 (first_request intro_rel intro_doc) = Inr [marker_card] \<and>
   generator marker_env 1 (retry_request intro_rel intro_doc) = Inr [marker_card] \<and>
   py_contains FALLBACK_MARKER (c_content_md marker_card) \<and>
   fst (fst (synthesize marker_env empty_world intro_rel intro_doc (asc ''Intro''))) = [marker_card] \<and>
   length (gen_requests (calls (snd (synthesize marker_env empty_world intro_rel intro_doc (asc ''Intro''))))) = 3 \<and>
   length (judge_requests (calls (snd (synthesize marker_env empty_world intro_rel intro_doc (asc ''Intro''))))) = 1"
proof -
  have a: "generator marker_env 0 (first_request intro_rel intro_doc) = Inr [marker_card]"
    "generator marker_env 1 (retry_request intro_rel intro_doc) = Inr [marker_card]"
    by (simp_all add: marker_env_def)
  have b: "py_contains FALLBACK_MARKER (c_content_md marker_card)"
    by (simp add: marker_card_def FALLBACK_MARKER_def)
  have v: "\<not> verdict_ok (verdict_of marker_env w intro_rel intro_doc cs)" for w cs
    by (simp add: marker_verdict verdict_ok_def dict_get_def)
  have r: "refinement_answer marker_env w intro_rel intro_doc cs = Inr [marker_card]" for w cs
    by (simp add: refinement_answer_def marker_env_def)
  have c: "fst (fst (synthesize marker_env empty_world intro_rel intro_doc (asc ''Intro''))) = [marker_card]"
    by (simp add: synthesize_unfold marker_candidate judge_and_refine_result v r Let_def)
  have d: "calls (snd (synthesize marker_env empty_world intro_rel intro_doc (asc ''Intro''))) =
     [GenCall (first_request intro_rel intro_doc), GenCall (retry_request intro_rel intro_doc),
      JudgeCall (judge_request_of intro_rel intro_doc [marker_card]),
      GenCall (refine_request intro_rel intro_doc
        (verdict_of marker_env (snd (first_generation marker_env empty_world intro_rel intro_doc))
           intro_rel intro_doc [marker_card]) [marker_card])]"
    by (simp add: synthesize_calls marker_candidate marker_rejected v empty_world_calls)
  show ?thesis using a b c by (simp add: d)
qed

text \<open>
  Claim C2 (refinement bound). For every synthesis run, with \<open>raw\<close> the candidate
  cards after generation and retry: the validator is called at most once, and not at all
  when there is no candidate. When the sanitized verdict is negative, the calls after
  generation are exactly the validator call followed by one refinement call, which
  carries the guidance built from the verdict and the candidate cards as context, so
  nothing is called after the refinement; when the verdict is positive there is no
  refinement call. A non-empty refinement answer replaces the candidate cards and
  \<open>refinement_applied\<close> is true; an empty one leaves them and records false; a
  raised exception leaves them and records false with the exception's kind under
  \<open>refinement_error\<close>.
\<close>

theorem refinement_bound:
  assumes gen: "first_generation e w rel text = (raw, w2)"
    and syn: "synthesize e w rel text title = ((cards, quality), w')"
  shows
    "length (judge_requests (new_calls w w')) \<le> 1 \<and>
     (raw = [] \<longrightarrow>
        judge_requests (new_calls w w') = [] \<and>
        filter is_refinement (gen_requests (new_calls w w')) = []) \<and>
     (raw \<noteq> [] \<longrightarrow>
        judge_requests (new_calls w w') = [judge_request_of rel text raw] \<and>
        map_of quality ''judge'' = Some (PDict (verdict_of e w2 rel text raw))) \<and>
     (raw \<noteq> [] \<and> verdict_ok (verdict_of e w2 rel text raw) \<longrightarrow>
        new_calls w2 w' = [JudgeCall (judge_request_of rel text raw)] \<and>
        filter is_refinement (gen_requests (new_calls w w')) = [] \<and>
        cards = raw \<and>
        map_of quality ''refinement_applied'' = Some (PBool False) \<and>
        map_of quality ''refinement_error'' = None) \<and>
     (raw \<noteq> [] \<and> \<not> verdict_ok (verdict_of e w2 rel text raw) \<longrightarrow>
        new_calls w2 w' =
          [JudgeCall (judge_request_of rel text raw),
           GenCall (refine_request rel text (verdict_of e w2 rel text raw) raw)] \<and>
        filter is_refinement (gen_requests (new_calls w w')) =
          [refine_request rel text (verdict_of e w2 rel text raw) raw] \<and>
        (case refinement_answer e w2 rel text raw of
           Inr refined \<Rightarrow>
             (refined \<noteq> [] \<longrightarrow>
                cards = refined \<and>
                map_of quality ''refinement_applied'' = Some (PBool True) \<and>
                map_of quality ''refinement_error'' = None) \<and>
             (refined = [] \<longrightarrow>
                cards = raw \<and>
                map_of quality ''refinement_applied'' = Some (PBool False) \<and>
                map_of quality ''refinement_error'' = None)
         | Inl ex \<Rightarrow>
             cards = raw \<and>
             map_of quality ''refinement_applied'' = Some (PBool False) \<and>
             map_of quality ''refinement_error'' = Some (PStr (asc (exn_kind ex)))))"
proof -
  have raw: "fst (first_generation e w rel text) = raw"
    and w2: "snd (first_generation e w rel text) = w2"
    using gen by simp_all
  have w': "w' = snd (synthesize e w rel text title)"
    and res: "fst (synthesize e w rel text title) = (cards, quality)"
    using syn by simp_all
  let ?G = "if first_attempt_rejected e w rel text
      then [GenCall (first_request rel text), GenCall (retry_request rel text)]
      else [GenCall (first_request rel text)]"
  let ?V = "verdict_of e w2 rel text raw"
  let ?J = "if raw = [] then []
      else if verdict_ok ?V
      then [JudgeCall (judge_request_of rel text raw)]
      else [JudgeCall (judge_request_of rel text raw),
            GenCall (refine_request rel text ?V raw)]"
  have cw: "calls w' = calls w @ ?G @ ?J"
    using synthesize_calls [of e w rel "text" title] by (simp only: raw w2 w')
  have c2: "calls w2 = calls w @ ?G"
    using first_generation_calls [of e w rel "text"] by (simp only: w2)
  have nc: "new_calls w w' = ?G @ ?J"
    using cw by (rule new_calls_append)
  have nc2: "new_calls w2 w' = ?J"
    by (rule new_calls_append) (simp only: cw c2 append_assoc)
  have one: "length (judge_requests (new_calls w w')) \<le> 1"
    by (simp add: nc)
  have none: "judge_requests (new_calls w w') = [] \<and>
        filter is_refinement (gen_requests (new_calls w w')) = []"
    if "raw = []"
    using that by (simp add: nc is_refinement_simps)
  have judged: "judge_requests (new_calls w w') = [judge_request_of rel text raw] \<and>
        map_of quality ''judge'' = Some (PDict ?V)"
    if ne: "raw \<noteq> []"
  proof -
    have "fst (judge_and_refine e w2 rel text raw) = (cards, quality)"
      using res ne by (simp add: synthesize_unfold raw w2)
    then have "map_of quality ''judge'' = Some (PDict ?V)"
      by (auto simp: judge_and_refine_result Let_def update_conv' split: if_splits sum.splits)
    then show ?thesis using ne by (simp add: nc)
  qed
  have accepted: "new_calls w2 w' = [JudgeCall (judge_request_of rel text raw)] \<and>
        filter is_refinement (gen_requests (new_calls w w')) = [] \<and>
        cards = raw \<and>
        map_of quality ''refinement_applied'' = Some (PBool False) \<and>
        map_of quality ''refinement_error'' = None"
    if ne: "raw \<noteq> []" and ok: "verdict_ok ?V"
  proof -
    have "fst (judge_and_refine e w2 rel text raw) = (cards, quality)"
      using res ne by (simp add: synthesize_unfold raw w2)
    then have "cards = raw \<and>
        map_of quality ''refinement_applied'' = Some (PBool False) \<and>
        map_of quality ''refinement_error'' = None"
      using ok by (auto simp: judge_and_refine_result Let_def update_conv')
    then show ?thesis using ne ok by (simp add: nc nc2 is_refinement_simps)
  qed
  have refined: "new_calls w2 w' =
          [JudgeCall (judge_request_of rel text raw),
           GenCall (refine_request rel text ?V raw)] \<and>
        filter is_refinement (gen_requests (new_calls w w')) =
          [refine_request rel text ?V raw] \<and>
        (case refinement_answer e w2 rel text raw of
           Inr refined \<Rightarrow>
             (refined \<noteq> [] \<longrightarrow>
                cards = refined \<and>
                map_of quality ''refinement_applied'' = Some (PBool True) \<and>
                map_of quality ''refinement_error'' = None) \<and>
             (refined = [] \<longrightarrow>
                cards = raw \<and>
                map_of quality ''refinement_applied'' = Some (PBool False) \<and>
                map_of quality ''refinement_error'' = None)
         | Inl ex \<Rightarrow>
             cards = raw \<and>
             map_of quality ''refinement_applied'' = Some (PBool False) \<and>
             map_of quality ''refinement_error'' = Some (PStr (asc (exn_kind ex))))"
    if ne: "raw \<noteq> []" and nok: "\<not> verdict_ok ?V"
  proof -
    have "fst (judge_and_refine e w2 rel text raw) = (cards, quality)"
      using res ne by (simp add: synthesize_unfold raw w2)
    then have "case refinement_answer e w2 rel text raw of
           Inr refined \<Rightarrow>
             (refined \<noteq> [] \<longrightarrow>
                cards = refined \<and>
                map_of quality ''refinement_applied'' = Some (PBool True) \<and>
                map_of quality ''refinement_error'' = None) \<and>
             (refined = [] \<longrightarrow>
                cards = raw \<and>
                map_of quality ''refinement_applied'' = Some (PBool False) \<and>
                map_of quality ''refinement_error'' = None)
         | Inl ex \<Rightarrow>
             cards = raw \<and>
             map_of quality ''refinement_applied'' = Some (PBool False) \<and>
             map_of quality ''refinement_error'' = Some (PStr (asc (exn_kind ex)))"
      using nok by (auto simp: judge_and_refine_result Let_def update_conv' split: sum.splits)
    then show ?thesis using ne nok by (simp add: nc nc2 is_refinement_simps)
  qed
  from one none judged accepted refined show ?thesis by blast
qed

lemma refining_accepted: "\<not> first_attempt_rejected refining_env empty_world intro_rel intro_doc"
  by (simp add: first_attempt_rejected_def refining_env_def first_request_def good_card_def
      FALLBACK_MARKER_def bad_phrases_def lower_basic_def asc_def)

lemma refining_candidate:
  "fst (first_generation refining_env empty_world intro_rel intro_doc) = [good_card]"
  by (simp add: first_generation_cards refining_accepted)
     (simp add: refining_env_def first_request_def)

lemma refining_verdict:
  "\<not> verdict_ok (verdict_of refining_env w intro_rel intro_doc cs)"
  using gap_verdict
  by (simp add: verdict_of_def judge_once_def refining_env_def Let_def verdict_ok_def dict_get_def)

lemma refining_answer:
  "refinement_answer refining_env w intro_rel intro_doc cs = Inr [better_card]"
  by (simp add: refinement_answer_def refining_env_def refine_request_def)

lemma fine_candidate:
  "fst (first_generation fine_env empty_world intro_rel intro_doc) = [good_card]"
  by (simp add: first_generation_cards fine_accepted) (simp add: fine_env_def)

lemma fine_verdict:
  "verdict_ok (verdict_of fine_env w intro_rel intro_doc cs)"
  by (simp add: verdict_of_def judge_once_def fine_env_def Let_def verdict_ok_def dict_get_def
      sanitize_judge_meta_def model_dump_def fine_report_def missing_in_def py_or_def)

lemma failing_candidate:
  "fst (first_generation failing_env empty_world intro_rel intro_doc) = []"
  by (simp add: first_generation_cards failing_rejected) (simp add: failing_env_def)

lemma collapse2: "x = (fst x, snd x)"
  by simp

theorem refinement_bound_witness:
  "fst (first_generation refining_env empty_world intro_rel intro_doc) \<noteq> [] \<and>
   \<not> verdict_ok (verdict_of refining_env
        (snd (first_generation refining_env empty_world intro_rel intro_doc)) intro_rel intro_doc
        (fst (first_generation refining_env empty_world intro_rel intro_doc))) \<and>
   fst (fst (synthesize refining_env empty_world intro_rel intro_doc (asc ''Intro''))) =
     [better_card] \<and>
   map_of (snd (fst (synthesize refining_env empty_world intro_rel intro_doc (asc ''Intro''))))
     ''refinement_applied'' = Some (PBool True) \<and>
   fst (first_generation fine_env empty_world intro_rel intro_doc) \<noteq> [] \<and>
   verdict_ok (verdict_of fine_env
        (snd (first_generation fine_env empty_world intro_rel intro_doc)) intro_rel intro_doc
        (fst (first_generation fine_env empty_world intro_rel intro_doc))) \<and>
   fst (fst (synthesize fine_env empty_world intro_rel intro_doc (asc ''Intro''))) = [good_card] \<and>
   fst (first_generation failing_env empty_world intro_rel intro_doc) = [] \<and>
   judge_requests (new_calls empty_world
     (snd (synthesize failing_env empty_world intro_rel intro_doc (asc ''Intro'')))) = []"
  using
    refinement_bound [OF collapse2 [of "first_generation refining_env empty_world intro_rel intro_doc"]
      collapse3 [of "synthesize refining_env empty_world intro_rel intro_doc (asc ''Intro'')"]]
    refinement_bound [OF collapse2 [of "first_generation fine_env empty_world intro_rel intro_doc"]
      collapse3 [of "synthesize fine_env empty_world intro_rel intro_doc (asc ''Intro'')"]]
    refinement_bound [OF collapse2 [of "first_generation failing_env empty_world intro_rel intro_doc"]
      collapse3 [of "synthesize failing_env empty_world intro_rel intro_doc (asc ''Intro'')"]]
  by (simp add: refining_candidate refining_verdict refining_answer fine_candidate fine_verdict
      failing_candidate good_card_def)

section \<open>The written card files\<close>

lemma card_description_cases:
  "(py_strip (c_description rc) = [] \<longrightarrow> card_description e rc = []) \<and>
   (py_strip (c_description rc) \<noteq> [] \<and>
    prefix lead_in_lower (str_lower e (py_strip (c_description rc))) \<longrightarrow>
      card_description e rc = py_strip (c_description rc)) \<and>
   (py_strip (c_description rc) \<noteq> [] \<and>
    \<not> prefix lead_in_lower (str_lower e (py_strip (c_description rc))) \<longrightarrow>
      card_description e rc =
        lead_in @ [32] @ rstrip_dots (py_strip (c_description rc)) @ [46] \<and>
      prefix lead_in (card_description e rc))"
  by (simp add: card_description_def Let_def)

lemma write_cards_entries:
  "map_of (snd (write_cards e k rel h title stem idx cards dir created)) n = map_of dir n \<or>
   (\<exists>rc\<in>set cards.
      map_of (snd (write_cards e k rel h title stem idx cards dir created)) n =
        Some (Inr (card_body e k rel h rc)))"
proof (induction cards arbitrary: idx dir created)
  case Nil
  then show ?case by simp
next
  case (Cons rc rest)
  let ?name = "fst (card_file_of e k rel h title stem idx rc)"
  show ?case
  proof (cases "write_error k ?name")
    case (Some ex)
    then show ?thesis by (simp add: card_file_of_def)
  next
    case None
    let ?dir = "AList.update ?name (Inr (card_body e k rel h rc)) dir"
    from Cons.IH [of "Suc idx" ?dir "created @ [cards_md_dir k @ [47] @ ?name]"]
    have "map_of (snd (write_cards e k rel h title stem (Suc idx) rest ?dir
                   (created @ [cards_md_dir k @ [47] @ ?name]))) n = map_of ?dir n \<or>
       (\<exists>rc'\<in>set rest.
          map_of (snd (write_cards e k rel h title stem (Suc idx) rest ?dir
                   (created @ [cards_md_dir k @ [47] @ ?name]))) n =
            Some (Inr (card_body e k rel h rc')))" .
    moreover have "map_of ?dir n = map_of dir n \<or> map_of ?dir n = Some (Inr (card_body e k rel h rc))"
      by (simp add: update_conv')
    moreover have "snd (write_cards e k rel h title stem idx (rc # rest) dir created) =
       snd (write_cards e k rel h title stem (Suc idx) rest ?dir
                   (created @ [cards_md_dir k @ [47] @ ?name]))"
      using None by (simp add: card_file_of_def)
    ultimately show ?thesis by auto
  qed
qed

text \<open>
  Claim C8, amended (card file serialization). Whatever the loop of \<open>write_cards\<close>
  leaves in the card directory under a name is either what was there before or the text
  of one of the cards: the description between \<open>"-- "\<close> and \<open>" --"\<close>, an empty
  line, the stripped body, an empty line, and the one provenance comment
  \<open><!-- source: <origins-dir-name>/<relative-path> source_sha256: <digest> -->\<close> with
  the digest of the source document, then a line end. The written description is the
  stripped description of the generator when that is empty or begins, compared in lower
  case, with the lead-in; otherwise it is the lead-in, a space, the stripped description
  without its trailing dots, and a dot, and so begins with the lead-in.
\<close>

theorem card_file_layout:
  "(\<forall>n. map_of (snd (write_cards e k rel h title stem idx cards dir created)) n = map_of dir n \<or>
        (\<exists>rc\<in>set cards.
           map_of (snd (write_cards e k rel h title stem idx cards dir created)) n =
             Some (Inr (asc ''-- '' @ card_description e rc @ asc '' --'' @ [10, 10] @
                        py_strip (c_content_md rc) @ [10, 10] @
                        asc ''<!-- source: '' @ origins_name k @ [47] @ rel @
                        asc '' source_sha256: '' @ h @ asc '' -->'' @ [10])))) \<and>
   (\<forall>rc.
      (py_strip (c_description rc) = [] \<longrightarrow> card_description e rc = []) \<and>
      (py_strip (c_description rc) \<noteq> [] \<and>
       prefix lead_in_lower (str_lower e (py_strip (c_description rc))) \<longrightarrow>
         card_description e rc = py_strip (c_description rc)) \<and>
      (py_strip (c_description rc) \<noteq> [] \<and>
       \<not> prefix lead_in_lower (str_lower e (py_strip (c_description rc))) \<longrightarrow>
         card_description e rc =
           lead_in @ [32] @ rstrip_dots (py_strip (c_description rc)) @ [46] \<and>
         prefix lead_in (card_description e rc)))"
proof -
  have body: "card_body e k rel h rc =
      asc ''-- '' @ card_description e rc @ asc '' --'' @ [10, 10] @
      py_strip (c_content_md rc) @ [10, 10] @
      asc ''<!-- source: '' @ origins_name k @ [47] @ rel @
      asc '' source_sha256: '' @ h @ asc '' -->'' @ [10]" for rc
    by (simp add: card_body_def provenance_comment_def)
  show ?thesis
    using write_cards_entries [of e k rel h title stem idx cards dir created]
      card_description_cases [of _ e]
    unfolding body by blast
qed

text \<open>
  Claim C8 as stated does not hold for a description that is empty after stripping: the
  generator left the lead-in out, but the source only rewrites a non-empty description,
  so the file is written with nothing between the two delimiters.
\<close>

theorem lead_in_claim_counterexample:
  "py_strip (c_description blank_card) = [] \<and>
   card_description fine_env blank_card = [] \<and>
   \<not> prefix lead_in (card_description fine_env blank_card) \<and>
   snd (write_cards fine_env example_kb intro_rel intro_sha (asc ''Intro'') (asc ''intro'') 0
          [blank_card] [] []) =
     [(card_filename
         (card_id fine_env intro_rel intro_sha 0 (asc ''Acme'')) (asc ''intro''),
       Inr (asc ''--  --'' @ [10, 10] @ asc ''Acme does X.'' @ [10, 10] @
            asc ''<!-- source: origins/intro.md source_sha256: '' @ intro_sha @
            asc '' -->'' @ [10]))]"
  by (simp add: card_description_def blank_card_def lead_in_def card_file_of_def card_body_def
      provenance_comment_def origins_name_def example_kb_def card_title_def intro_rel_def
      Let_def eval_strings)

theorem card_file_layout_witness:
  "py_strip (c_description good_card) \<noteq> [] \<and>
   \<not> prefix lead_in_lower (str_lower fine_env (py_strip (c_description good_card))) \<and>
   card_description fine_env good_card = lead_in @ [32] @ asc ''Acme and X'' @ [46] \<and>
   map_of (snd (write_cards fine_env example_kb intro_rel intro_sha (asc ''Intro'') (asc ''intro'')
                  0 [good_card] [] [])) good_name =
     Some (Inr (asc ''-- '' @ card_description fine_env good_card @ asc '' --'' @ [10, 10] @
                asc ''Acme does X.'' @ [10, 10] @
                asc ''<!-- source: origins/intro.md source_sha256: '' @ intro_sha @
                asc '' -->'' @ [10]))"
proof -
  let ?dir = "snd (write_cards fine_env example_kb intro_rel intro_sha (asc ''Intro'')
                     (asc ''intro'') 0 [good_card] [] [])"
  have a: "py_strip (c_description good_card) \<noteq> []"
    by (simp add: good_card_def eval_strings)
  have b: "\<not> prefix lead_in_lower (str_lower fine_env (py_strip (c_description good_card)))"
    by (simp add: good_card_def fine_env_def lower_basic_def lead_in_lower_def eval_strings)
  have s: "py_strip (c_description good_card) = asc ''Acme and X''"
    by (simp add: good_card_def eval_strings)
  have r: "rstrip_dots (asc ''Acme and X'') = asc ''Acme and X''"
    by (simp add: rstrip_dots_def asc_def)
  have c: "map_of ?dir good_name \<noteq> map_of [] good_name"
    by (simp add: card_file_of_def example_kb_def good_name_def card_title_def good_card_def
        Let_def eval_strings)
  note lay = card_file_layout [of fine_env example_kb intro_rel intro_sha "asc ''Intro''"
      "asc ''intro''" 0 "[good_card]" "[]" "[]"]
  have d: "\<exists>rc\<in>set [good_card].
      map_of ?dir good_name =
        Some (Inr (asc ''-- '' @ card_description fine_env rc @ asc '' --'' @ [10, 10] @
                   py_strip (c_content_md rc) @ [10, 10] @
                   asc ''<!-- source: '' @ origins_name example_kb @ [47] @ intro_rel @
                   asc '' source_sha256: '' @ intro_sha @ asc '' -->'' @ [10]))"
  proof (rule disjE [OF lay [THEN conjunct1, THEN spec, of good_name]])
    assume "map_of ?dir good_name = map_of [] good_name"
    with c show ?thesis by (rule notE)
  next
    assume "\<exists>rc\<in>set [good_card].
      map_of ?dir good_name =
        Some (Inr (asc ''-- '' @ card_description fine_env rc @ asc '' --'' @ [10, 10] @
                   py_strip (c_content_md rc) @ [10, 10] @
                   asc ''<!-- source: '' @ origins_name example_kb @ [47] @ intro_rel @
                   asc '' source_sha256: '' @ intro_sha @ asc '' -->'' @ [10]))"
    then show ?thesis .
  qed
  have e: "py_strip (c_content_md good_card) = asc ''Acme does X.''"
    by (simp add: good_card_def eval_strings)
  have f: "asc ''<!-- source: '' @ origins_name example_kb @ [47] @ intro_rel =
      asc ''<!-- source: origins/intro.md''"
    by (simp add: origins_name_def example_kb_def intro_rel_def asc_def)
  from lay [THEN conjunct2, THEN spec, of good_card] a b
  have g: "card_description fine_env good_card =
      lead_in @ [32] @ rstrip_dots (py_strip (c_description good_card)) @ [46]"
    by simp
  from d have "map_of ?dir good_name =
        Some (Inr (asc ''-- '' @ card_description fine_env good_card @ asc '' --'' @ [10, 10] @
                   asc ''Acme does X.'' @ [10, 10] @
                   asc ''<!-- source: origins/intro.md source_sha256: '' @ intro_sha @
                   asc '' -->'' @ [10]))"
    using e f by (simp add: asc_def)
  with a b g s r show ?thesis by simp
qed

section \<open>Running the synthesis twice\<close>

lemma first_generation_cards_md:
  "cards_md (snd (first_generation e w rel doc)) = cards_md w"
  by (simp add: first_generation_def generate_cards_once_def Let_def split: sum.splits)

lemma judge_and_refine_cards_md:
  "cards_md (snd (judge_and_refine e w rel doc cs)) = cards_md w"
  by (simp add: judge_and_refine_def generate_cards_once_def judge_once_def Let_def
      split: sum.splits)

lemma synthesize_cards_md:
  "cards_md (snd (synthesize e w rel doc title)) = cards_md w"
  by (simp add: synthesize_unfold first_generation_cards_md judge_and_refine_cards_md)

lemma synthesize_fixed:
  assumes "\<forall>n m r. generator e n r = generator e m r"
    and "\<forall>n m r. validator e n r = validator e m r"
  shows "fst (synthesize e w rel doc title) = fst (synthesize e w' rel doc title)"
proof -
  have "generator e = (\<lambda>n. generator e 0)"
    using assms(1) by (intro ext) blast
  then obtain g where g: "generator e = (\<lambda>n. g)" ..
  have "validator e = (\<lambda>n. validator e 0)"
    using assms(2) by (intro ext) blast
  then obtain j where j: "validator e = (\<lambda>n. j)" ..
  have r: "first_attempt_rejected e w rel doc = first_attempt_rejected e w' rel doc"
    by (simp add: first_attempt_rejected_def g)
  have c: "fst (first_generation e w rel doc) = fst (first_generation e w' rel doc)"
    by (simp add: first_generation_cards r g)
  have v: "verdict_of e u rel doc cs = verdict_of e u' rel doc cs" for u u' cs
    by (simp add: verdict_of_def judge_once_def j Let_def split: sum.splits)
  have a: "refinement_answer e u rel doc cs = refinement_answer e u' rel doc cs" for u u' cs
    by (simp add: refinement_answer_def g v [of u _ u'])
  have jr: "fst (judge_and_refine e u rel doc cs) = fst (judge_and_refine e u' rel doc cs)"
    for u u' cs
    unfolding judge_and_refine_result v [of u _ u'] a [of u _ u'] by (rule refl)
  show ?thesis
    by (simp add: synthesize_unfold c
        jr [of "snd (first_generation e w rel doc)" _ "snd (first_generation e w' rel doc)"])
qed

lemma write_cards_snd:
  "snd (write_cards e k rel h title stem idx cards dir created) =
     foldl (\<lambda>d (n, b). AList.update n (Inr b) d) dir (writes_of e k rel h title stem idx cards)"
  by (induction cards arbitrary: idx dir created)
     (auto simp: Let_def split: prod.splits option.splits)

lemma write_cards_fst:
  "fst (write_cards e k rel h title stem idx cards dir created) =
     fst (write_cards e k rel h title stem idx cards dir' created)"
proof (induction cards arbitrary: idx dir dir' created)
  case Nil
  then show ?case by simp
next
  case (Cons rc rest)
  show ?case
    using Cons.IH by (simp add: Let_def split: prod.splits option.splits)
qed

lemma write_cards_created:
  "fst (write_cards e k rel h title stem idx cards dir created) = Inr files \<Longrightarrow>
   files = created @ map (\<lambda>(n, b). cards_md_dir k @ [47] @ n) (writes_of e k rel h title stem idx cards)"
proof (induction cards arbitrary: idx dir created)
  case Nil
  then show ?case by simp
next
  case (Cons rc rest)
  obtain n b where nb: "card_file_of e k rel h title stem idx rc = (n, b)"
    by force
  show ?case
  proof (cases "write_error k n")
    case (Some ex)
    with Cons.prems nb show ?thesis by simp
  next
    case None
    with Cons.prems nb
    have "fst (write_cards e k rel h title stem (Suc idx) rest (AList.update n (Inr b) dir)
                (created @ [cards_md_dir k @ [47] @ n])) = Inr files"
      by simp
    then have "files = (created @ [cards_md_dir k @ [47] @ n]) @
        map (\<lambda>(n, b). cards_md_dir k @ [47] @ n) (writes_of e k rel h title stem (Suc idx) rest)"
      by (rule Cons.IH)
    with None nb show ?thesis by simp
  qed
qed

lemma writes_of_all:
  "fst (write_cards e k rel h title stem idx cards dir created) = Inr files \<Longrightarrow>
   writes_of e k rel h title stem idx cards =
     map (\<lambda>(i, rc). card_file_of e k rel h title stem i rc) (enumerate idx cards)"
proof (induction cards arbitrary: idx dir created)
  case Nil
  then show ?case by simp
next
  case (Cons rc rest)
  obtain n b where nb: "card_file_of e k rel h title stem idx rc = (n, b)"
    by force
  show ?case
  proof (cases "write_error k n")
    case (Some ex)
    with Cons.prems nb show ?thesis by simp
  next
    case None
    with Cons.prems nb
    have "fst (write_cards e k rel h title stem (Suc idx) rest (AList.update n (Inr b) dir)
                (created @ [cards_md_dir k @ [47] @ n])) = Inr files"
      by simp
    then have "writes_of e k rel h title stem (Suc idx) rest =
        map (\<lambda>(i, rc). card_file_of e k rel h title stem i rc) (enumerate (Suc idx) rest)"
      by (rule Cons.IH)
    with None nb show ?thesis by simp
  qed
qed

lemma map_of_foldl_update:
  "map_of (foldl (\<lambda>d (n, b). AList.update n (Inr b) d) dir ws) =
     map_of dir ++ map_of (rev (map (\<lambda>(n, b). (n, Inr b)) ws))"
  by (induction ws arbitrary: dir) (auto simp: update_conv' map_of_append)

lemma map_of_filter_restrict:
  "map_of (filter (\<lambda>(n, f). P n) xs) = map_of xs |` {n. P n}"
  by (induction xs) (auto simp: restrict_map_def fun_eq_iff)

lemma restrict_add_idem: "((m |` K ++ M) |` K) ++ M = m |` K ++ M"
  by (auto simp: fun_eq_iff map_add_def restrict_map_def split: option.splits)

lemma kb_upsert_failed:
  "read_origin k rel = Inl ex \<Longrightarrow> kb_upsert_cards_for_markdown e k w rel = (Inl ex, w)"
  by (simp add: kb_upsert_cards_for_markdown_def)

lemma kb_upsert_run:
  assumes "read_origin k rel = Inr (doc, h)"
  shows "kb_upsert_cards_for_markdown e k w rel =
     (let stem = path_stem rel;
          title = extract_title doc stem;
          S = synthesize e (delete_old_cards e k stem w) rel doc title;
          W = write_cards e k rel h title stem 0 (fst (fst S))
                (cards_md (delete_old_cards e k stem w)) []
      in (case fst W of
            Inl ex \<Rightarrow> Inl ex
          | Inr created_files \<Rightarrow>
              Inr \<lparr>r_ok = True, r_skipped = False, r_origin = rel,
                   r_cards_md_count = length created_files,
                   r_cards_md_files = created_files,
                   r_quality = snd (fst S)\<rparr>,
          (snd S)\<lparr>cards_md := snd W\<rparr>))"
  using assms synthesize_cards_md [of e "delete_old_cards e k (path_stem rel) w" rel doc
      "extract_title doc (path_stem rel)"]
  by (auto simp: kb_upsert_cards_for_markdown_def Let_def split: prod.splits sum.splits)

lemma delete_old_cards_map:
  "map_of (cards_md (delete_old_cards e k stem w)) =
     map_of (cards_md w) |` {n. \<not> (glob_match e (card_pattern stem) n \<and> \<not> unlink_error k n)}"
  by (simp add: delete_old_cards_def map_of_filter_restrict)

lemma dom_written:
  "dom (map_of (rev (map (\<lambda>(n, b). (n, Inr b)) ws))) = fst ` set ws"
  by (simp add: dom_map_of_conv_image_fst image_image case_prod_unfold)

text \<open>
  Claim C6 (idempotence and deterministic identifiers). The card id is the function
  \<open>card_id\<close> of the document path, its digest, the card index and the card title, so
  equal tuples give equal ids. Consequently, when the answers of the generator and of the
  validator do not depend on when they are asked, a second synthesis of the same
  unchanged document gives the same outcome as the first (the same result with the same
  list of written files, or the same exception) and leaves the card directory as the
  first run left it, name for name and content for content: nothing accumulates. The
  files of a run that returns are named, card by card, by \<open>card_filename\<close> of the
  card's id and the stem of the document. After such a run, every file of the directory
  that the document's pattern matches and whose \<open>unlink\<close> does not fail is one of the
  files that run wrote, because the old ones were deleted first.
\<close>

theorem upsert_idempotent:
  assumes gen_fixed: "\<forall>n m r. generator e n r = generator e m r"
    and val_fixed: "\<forall>n m r. validator e n r = validator e m r"
    and run1: "kb_upsert_cards_for_markdown e k w rel = (res1, w1)"
    and run2: "kb_upsert_cards_for_markdown e k w1 rel = (res2, w2)"
  shows "res2 = res1 \<and>
     map_of (cards_md w2) = map_of (cards_md w1) \<and>
     fst ` set (cards_md w2) = fst ` set (cards_md w1) \<and>
     (\<forall>r. res1 = Inr r \<longrightarrow>
        (\<exists>cards h title.
           r_cards_md_files r =
             map (\<lambda>(i, rc). cards_md_dir k @ [47] @
                    card_filename (card_id e rel h i (card_title title i rc)) (path_stem rel))
               (enumerate 0 cards))) \<and>
     (\<forall>r. res1 = Inr r \<longrightarrow>
        (\<forall>n\<in>fst ` set (cards_md w1).
           glob_match e (card_pattern (path_stem rel)) n \<and> \<not> unlink_error k n \<longrightarrow>
           cards_md_dir k @ [47] @ n \<in> set (r_cards_md_files r)))"
proof (cases "read_origin k rel")
  case (Inl ex)
  from run1 have "res1 = Inl ex" "w1 = w"
    by (simp_all add: kb_upsert_failed [OF Inl])
  moreover from run2 have "res2 = Inl ex" "w2 = w1"
    by (simp_all add: kb_upsert_failed [OF Inl])
  ultimately show ?thesis by simp
next
  case (Inr p)
  obtain doc h where p: "p = (doc, h)" by (cases p)
  have ro: "read_origin k rel = Inr (doc, h)" using Inr p by simp
  let ?stem = "path_stem rel"
  let ?title = "extract_title doc ?stem"
  let ?K = "{n. \<not> (glob_match e (card_pattern ?stem) n \<and> \<not> unlink_error k n)}"
  let ?S1 = "synthesize e (delete_old_cards e k ?stem w) rel doc ?title"
  let ?S2 = "synthesize e (delete_old_cards e k ?stem w1) rel doc ?title"
  let ?cards = "fst (fst ?S1)"
  let ?ws = "writes_of e k rel h ?title ?stem 0 ?cards"
  let ?M = "map_of (rev (map (\<lambda>(n, b). (n, Inr b)) ?ws)) :: ustring \<rightharpoonup> exn + ustring"
  let ?W1 = "write_cards e k rel h ?title ?stem 0 ?cards
               (cards_md (delete_old_cards e k ?stem w)) []"
  let ?W2 = "write_cards e k rel h ?title ?stem 0 ?cards
               (cards_md (delete_old_cards e k ?stem w1)) []"
  have same: "fst ?S2 = fst ?S1"
    using gen_fixed val_fixed by (rule synthesize_fixed)
  have "(res1, w1) = ((case fst ?W1 of
            Inl ex \<Rightarrow> Inl ex
          | Inr created_files \<Rightarrow>
              Inr \<lparr>r_ok = True, r_skipped = False, r_origin = rel,
                   r_cards_md_count = length created_files,
                   r_cards_md_files = created_files,
                   r_quality = snd (fst ?S1)\<rparr>), (snd ?S1)\<lparr>cards_md := snd ?W1\<rparr>)"
    unfolding run1 [symmetric] kb_upsert_run [OF ro] Let_def by (rule refl)
  then have r1: "res1 = (case fst ?W1 of
            Inl ex \<Rightarrow> Inl ex
          | Inr created_files \<Rightarrow>
              Inr \<lparr>r_ok = True, r_skipped = False, r_origin = rel,
                   r_cards_md_count = length created_files,
                   r_cards_md_files = created_files,
                   r_quality = snd (fst ?S1)\<rparr>)"
    and d1: "cards_md w1 = snd ?W1"
    by simp_all
  have "(res2, w2) = ((case fst ?W2 of
            Inl ex \<Rightarrow> Inl ex
          | Inr created_files \<Rightarrow>
              Inr \<lparr>r_ok = True, r_skipped = False, r_origin = rel,
                   r_cards_md_count = length created_files,
                   r_cards_md_files = created_files,
                   r_quality = snd (fst ?S1)\<rparr>), (snd ?S2)\<lparr>cards_md := snd ?W2\<rparr>)"
    unfolding run2 [symmetric] kb_upsert_run [OF ro] Let_def same by (rule refl)
  then have r2: "res2 = (case fst ?W2 of
            Inl ex \<Rightarrow> Inl ex
          | Inr created_files \<Rightarrow>
              Inr \<lparr>r_ok = True, r_skipped = False, r_origin = rel,
                   r_cards_md_count = length created_files,
                   r_cards_md_files = created_files,
                   r_quality = snd (fst ?S1)\<rparr>)"
    and d2: "cards_md w2 = snd ?W2"
    by simp_all
  have fw: "fst ?W2 = fst ?W1"
    by (rule write_cards_fst)
  have res: "res2 = res1"
    by (simp only: r1 r2 fw)
  have m1: "map_of (cards_md w1) = map_of (cards_md w) |` ?K ++ ?M"
    by (simp only: d1 write_cards_snd map_of_foldl_update delete_old_cards_map)
  have m2: "map_of (cards_md w2) = map_of (cards_md w1) |` ?K ++ ?M"
    by (simp only: d2 write_cards_snd map_of_foldl_update delete_old_cards_map)
  have maps: "map_of (cards_md w2) = map_of (cards_md w1)"
    unfolding m2 unfolding m1 by (rule restrict_add_idem)
  have names: "fst ` set (cards_md w2) = fst ` set (cards_md w1)"
    using maps by (simp flip: dom_map_of_conv_image_fst)
  have clean: "cards_md_dir k @ [47] @ n \<in> set (r_cards_md_files r)"
    if r: "res1 = Inr r" and n: "n \<in> fst ` set (cards_md w1)"
      and g: "glob_match e (card_pattern ?stem) n" "\<not> unlink_error k n" for r n
  proof -
    from r r1 obtain files where files: "fst ?W1 = Inr files" "r_cards_md_files r = files"
      by (auto split: sum.splits)
    from files(1) have fl: "files = map (\<lambda>(n, b). cards_md_dir k @ [47] @ n) ?ws"
      using write_cards_created [of e k rel h ?title ?stem 0 ?cards _ "[]" files] by simp
    from n have "n \<in> dom (map_of (cards_md w) |` ?K ++ ?M)"
      by (simp add: m1 flip: dom_map_of_conv_image_fst)
    with g have "n \<in> dom ?M"
      by (auto simp: restrict_map_def map_add_def split: option.splits if_splits)
    then have "n \<in> fst ` set ?ws"
      by (simp only: dom_written)
    then show ?thesis
      by (force simp: files(2) fl)
  qed
  have named: "\<exists>cards h title.
           r_cards_md_files r =
             map (\<lambda>(i, rc). cards_md_dir k @ [47] @
                    card_filename (card_id e rel h i (card_title title i rc)) (path_stem rel))
               (enumerate 0 cards)"
    if r: "res1 = Inr r" for r
  proof -
    from r r1 obtain files where files: "fst ?W1 = Inr files" "r_cards_md_files r = files"
      by (auto split: sum.splits)
    from files(1) have "files = map (\<lambda>(n, b). cards_md_dir k @ [47] @ n) ?ws"
      using write_cards_created [of e k rel h ?title ?stem 0 ?cards _ "[]" files] by simp
    also have "?ws = map (\<lambda>(i, rc). card_file_of e k rel h ?title ?stem i rc) (enumerate 0 ?cards)"
      using files(1) by (rule writes_of_all)
    finally have "r_cards_md_files r =
        map (\<lambda>(i, rc). cards_md_dir k @ [47] @
               card_filename (card_id e rel h i (card_title ?title i rc)) ?stem)
          (enumerate 0 ?cards)"
      by (simp add: files(2) card_file_of_def case_prod_unfold)
    then show ?thesis by blast
  qed
  from res maps names named clean show ?thesis by blast
qed

lemma example_read_origin: "read_origin example_kb intro_rel = Inr (intro_doc, intro_sha)"
  by (simp add: read_origin_def resolve_origin_def join_origin_def path_parts_def
      is_absolute_def path_str_def example_kb_def intro_file_def intro_rel_def asc_def Let_def)

lemma fine_synth_cards:
  "fst (fst (synthesize fine_env w intro_rel intro_doc title)) = [good_card]"
proof -
  have a: "\<not> first_attempt_rejected fine_env w intro_rel intro_doc"
    using good_card_clean by (simp add: first_attempt_rejected_def fine_env_def)
  have c: "fst (first_generation fine_env w intro_rel intro_doc) = [good_card]"
    by (simp add: first_generation_cards a) (simp add: fine_env_def)
  show ?thesis
    by (simp add: synthesize_unfold c judge_and_refine_result fine_verdict Let_def)
qed

lemma fine_fixed:
  "\<forall>n m r. generator fine_env n r = generator fine_env m r"
  "\<forall>n m r. validator fine_env n r = validator fine_env m r"
  by (simp_all add: fine_env_def)

lemma good_name_written:
  "card_file_of fine_env example_kb intro_rel intro_sha title (asc ''intro'') 0 good_card =
     (good_name, card_body fine_env example_kb intro_rel intro_sha good_card)"
  by (simp add: card_file_of_def good_name_def card_title_def good_card_def Let_def eval_strings)

lemma first_run_result:
  "fst first_run =
     Inr \<lparr>r_ok = True, r_skipped = False, r_origin = intro_rel, r_cards_md_count = 1,
          r_cards_md_files = [cards_md_dir example_kb @ [47] @ good_name],
          r_quality = snd (fst (synthesize fine_env
                        (delete_old_cards fine_env example_kb (asc ''intro'') empty_world)
                        intro_rel intro_doc (asc ''Intro'')))\<rparr>"
  "cards_md (snd first_run) =
     [(good_name, Inr (card_body fine_env example_kb intro_rel intro_sha good_card))]"
proof -
  have d: "cards_md (delete_old_cards fine_env example_kb (asc ''intro'') empty_world) = []"
    by (simp add: delete_old_cards_def empty_world_def)
  have w: "write_error example_kb good_name = None"
    by (simp add: example_kb_def)
  show "fst first_run =
     Inr \<lparr>r_ok = True, r_skipped = False, r_origin = intro_rel, r_cards_md_count = 1,
          r_cards_md_files = [cards_md_dir example_kb @ [47] @ good_name],
          r_quality = snd (fst (synthesize fine_env
                        (delete_old_cards fine_env example_kb (asc ''intro'') empty_world)
                        intro_rel intro_doc (asc ''Intro'')))\<rparr>"
    by (simp add: first_run_def kb_upsert_run [OF example_read_origin] Let_def intro_stem
        intro_title [simplified intro_stem] fine_synth_cards good_name_written w d)
  show "cards_md (snd first_run) =
     [(good_name, Inr (card_body fine_env example_kb intro_rel intro_sha good_card))]"
    by (simp add: first_run_def kb_upsert_run [OF example_read_origin] Let_def intro_stem
        intro_title [simplified intro_stem] fine_synth_cards good_name_written w d)
qed

lemma good_name_matches:
  "glob_match fine_env (card_pattern (path_stem intro_rel)) good_name"
  unfolding intro_stem
  by (simp add: fine_env_def card_pattern_def good_name_def card_filename_def
      card_id_def toy_digest_def intro_rel_def intro_sha_def digits.simps asc_def)

theorem upsert_idempotent_witness:
  "(\<forall>n m r. generator fine_env n r = generator fine_env m r) \<and>
   (\<forall>n m r. validator fine_env n r = validator fine_env m r) \<and>
   (\<exists>r. fst first_run = Inr r \<and>
        r_cards_md_files r = [cards_md_dir example_kb @ [47] @ good_name]) \<and>
   fst ` set (cards_md (snd first_run)) = {good_name} \<and>
   glob_match fine_env (card_pattern (path_stem intro_rel)) good_name \<and>
   \<not> unlink_error example_kb good_name \<and>
   fst second_run = fst first_run \<and>
   fst ` set (cards_md (snd second_run)) = {good_name}"
proof -
  note idem = upsert_idempotent [OF fine_fixed
      collapse2 [of "kb_upsert_cards_for_markdown fine_env example_kb empty_world intro_rel"]
      collapse2 [of "kb_upsert_cards_for_markdown fine_env example_kb
                       (snd (kb_upsert_cards_for_markdown fine_env example_kb empty_world intro_rel))
                       intro_rel"],
      folded first_run_def, folded second_run_def]
  have u: "\<not> unlink_error example_kb good_name"
    by (simp add: example_kb_def)
  have n: "fst ` set (cards_md (snd first_run)) = {good_name}"
    by (simp add: first_run_result)
  from idem have "fst second_run = fst first_run"
    and "fst ` set (cards_md (snd second_run)) = fst ` set (cards_md (snd first_run))"
    by simp_all
  with u n fine_fixed good_name_matches first_run_result(1) show ?thesis
    by simp
qed

section \<open>The full-corpus sync\<close>

lemma broken_listing:
  "list_markdown_files fine_env broken_kb =
     [([asc ''kb'', asc ''origins'', asc ''a.md''], binary_file),
      ([asc ''kb'', asc ''origins'', asc ''intro.md''], intro_file)]"
  by (simp add: list_markdown_files_def broken_kb_def fine_env_def lower_basic_def
      markdown_exts_def name_suffix_def strict_prefix_def asc_def)

text \<open>
  Claim C7 as stated does not hold. The first listed document of this knowledge base is
  no valid UTF-8, so reading it raises; \<open>kb_sync_all\<close> raises that exception itself,
  and the second document is never processed: no capability is called and no card file
  is written.
\<close>

theorem sync_claim_counterexample:
  "list_markdown_files fine_env broken_kb =
     [([asc ''kb'', asc ''origins'', asc ''a.md''], binary_file),
      ([asc ''kb'', asc ''origins'', asc ''intro.md''], intro_file)] \<and>
   kb_sync_all fine_env broken_kb empty_world =
     (Inl (Exn ''UnicodeDecodeError'' (asc ''invalid start byte'')), empty_world)"
proof -
  have "read_origin broken_kb (origin_rel broken_kb [asc ''kb'', asc ''origins'', asc ''a.md'']) =
      Inl (Exn ''UnicodeDecodeError'' (asc ''invalid start byte''))"
    by (simp add: read_origin_def resolve_origin_def join_origin_def origin_rel_def
        path_parts_def is_absolute_def path_str_def broken_kb_def binary_file_def asc_def Let_def)
  then show ?thesis
    by (simp add: kb_sync_all_def broken_listing kb_upsert_failed)
qed

lemma write_cards_ok:
  "\<forall>n. write_error k n = None \<Longrightarrow>
   \<exists>files. fst (write_cards e k rel h title stem idx cards dir created) = Inr files"
  by (induction cards arbitrary: idx dir created)
     (auto simp: Let_def split: prod.splits)

lemma write_cards_error:
  "fst (write_cards e k rel h title stem idx cards dir created) = Inl ex \<Longrightarrow>
   \<exists>n. write_error k n = Some ex"
proof (induction cards arbitrary: idx dir created)
  case Nil
  then show ?case by simp
next
  case (Cons rc rest)
  obtain n b where nb: "card_file_of e k rel h title stem idx rc = (n, b)"
    by force
  show ?case
  proof (cases "write_error k n")
    case (Some ex')
    with Cons.prems nb show ?thesis by auto
  next
    case None
    with Cons.prems nb
    have "fst (write_cards e k rel h title stem (Suc idx) rest (AList.update n (Inr b) dir)
                (created @ [cards_md_dir k @ [47] @ n])) = Inl ex"
      by simp
    then show ?thesis by (rule Cons.IH)
  qed
qed

lemma kb_upsert_ok:
  assumes ro: "read_origin k rel = Inr (doc, h)"
    and wr: "\<forall>n. write_error k n = None"
  shows "\<exists>r w'. kb_upsert_cards_for_markdown e k w rel = (Inr r, w') \<and> r_origin r = rel"
proof -
  let ?stem = "path_stem rel"
  let ?title = "extract_title doc ?stem"
  let ?S = "synthesize e (delete_old_cards e k ?stem w) rel doc ?title"
  from write_cards_ok [OF wr]
  obtain files where
    "fst (write_cards e k rel h ?title ?stem 0 (fst (fst ?S))
           (cards_md (delete_old_cards e k ?stem w)) []) = Inr files"
    by blast
  then show ?thesis
    by (simp add: kb_upsert_run [OF ro] Let_def)
qed

lemma kb_upsert_origin:
  "kb_upsert_cards_for_markdown e k w rel = (Inr r, w') \<Longrightarrow> r_origin r = rel"
  by (auto simp: kb_upsert_cards_for_markdown_def Let_def split: sum.splits prod.splits)

lemma kb_upsert_raises:
  assumes "fst (kb_upsert_cards_for_markdown e k w rel) = Inl ex"
  shows "read_origin k rel = Inl ex \<or> (\<exists>n. write_error k n = Some ex)"
proof (cases "read_origin k rel")
  case (Inl ex')
  with assms show ?thesis by (simp add: kb_upsert_failed)
next
  case (Inr p)
  obtain doc h where "p = (doc, h)" by (cases p)
  with Inr have ro: "read_origin k rel = Inr (doc, h)" by simp
  let ?stem = "path_stem rel"
  let ?title = "extract_title doc ?stem"
  let ?S = "synthesize e (delete_old_cards e k ?stem w) rel doc ?title"
  from assms have "fst (write_cards e k rel h ?title ?stem 0 (fst (fst ?S))
           (cards_md (delete_old_cards e k ?stem w)) []) = Inl ex"
    by (simp add: kb_upsert_run [OF ro] Let_def split: sum.splits)
  then show ?thesis by (blast dest: write_cards_error)
qed

lemma sync_loop_append:
  "sync_loop e k w (pre @ post) results =
     (case sync_loop e k w pre results of
        (Inl ex, w1) \<Rightarrow> (Inl ex, w1)
      | (Inr rs, w1) \<Rightarrow> sync_loop e k w1 post rs)"
  by (induction pre arbitrary: w results) (auto split: prod.splits sum.splits)

lemma sync_loop_results:
  "sync_loop e k w docs results = (Inr rs, w') \<Longrightarrow>
   map r_origin rs = map r_origin results @ map (\<lambda>md. origin_rel k (fst md)) docs"
proof (induction docs arbitrary: w results)
  case Nil
  then show ?case by simp
next
  case (Cons md rest)
  obtain x w1 where up: "kb_upsert_cards_for_markdown e k w (origin_rel k (fst md)) = (x, w1)"
    by force
  show ?case
  proof (cases x)
    case (Inl ex)
    with Cons.prems up show ?thesis by simp
  next
    case (Inr r)
    with Cons.prems up have "sync_loop e k w1 rest (results @ [r]) = (Inr rs, w')"
      by simp
    then have "map r_origin rs =
        map r_origin (results @ [r]) @ map (\<lambda>md. origin_rel k (fst md)) rest"
      by (rule Cons.IH)
    moreover have "r_origin r = origin_rel k (fst md)"
      using up Inr by (auto dest: kb_upsert_origin)
    ultimately show ?thesis by simp
  qed
qed

lemma sync_loop_ok:
  assumes wr: "\<forall>n. write_error k n = None"
  shows "\<forall>md\<in>set docs. \<exists>doc h. read_origin k (origin_rel k (fst md)) = Inr (doc, h) \<Longrightarrow>
    \<exists>rs w'. sync_loop e k w docs results = (Inr rs, w')"
proof (induction docs arbitrary: w results)
  case Nil
  then show ?case by simp
next
  case (Cons md rest)
  from Cons.prems obtain doc h where "read_origin k (origin_rel k (fst md)) = Inr (doc, h)"
    by auto
  from kb_upsert_ok [OF this wr, of e w]
  obtain r w1 where up: "kb_upsert_cards_for_markdown e k w (origin_rel k (fst md)) = (Inr r, w1)"
    by blast
  from Cons.prems have "\<forall>md\<in>set rest. \<exists>doc h. read_origin k (origin_rel k (fst md)) = Inr (doc, h)"
    by simp
  from Cons.IH [OF this, of w1 "results @ [r]"] up show ?case by simp
qed

text \<open>
  Claim C7, amended (failure isolation in the full-corpus sync). A document's synthesis
  raises only when the document cannot be resolved and read as text or a card file cannot
  be written: failures of the generator and of the validator never leave it. When
  \<open>kb_sync_all\<close> returns, its result is well formed: \<open>ok\<close> is true, \<open>processed\<close>
  is the number of source documents, and there is one outcome for each document, in the
  order of the listing; it does return whenever every listed document can be read and no
  write fails. But \<open>kb_sync_all\<close> has no handler of its own: when the synthesis of a
  document raises after the documents before it went through, \<open>kb_sync_all\<close> raises
  that exception, the outcomes collected so far are not returned and the documents after
  it are not processed.
\<close>

theorem sync_all_outcomes:
  "(\<forall>w0 rel ex. fst (kb_upsert_cards_for_markdown e k w0 rel) = Inl ex \<longrightarrow>
      read_origin k rel = Inl ex \<or> (\<exists>n. write_error k n = Some ex)) \<and>
   (\<forall>res w'. kb_sync_all e k w = (Inr res, w') \<longrightarrow>
      s_ok res \<and> s_processed res = length (list_markdown_files e k) \<and>
      map r_origin (s_results res) =
        map (\<lambda>md. origin_rel k (fst md)) (list_markdown_files e k)) \<and>
   ((\<forall>md\<in>set (list_markdown_files e k).
        \<exists>doc h. read_origin k (origin_rel k (fst md)) = Inr (doc, h)) \<and>
    (\<forall>n. write_error k n = None) \<longrightarrow>
      (\<exists>res w'. kb_sync_all e k w = (Inr res, w'))) \<and>
   (\<forall>pre md rest rs w1 ex.
      list_markdown_files e k = pre @ md # rest \<and>
      sync_loop e k w pre [] = (Inr rs, w1) \<and>
      fst (kb_upsert_cards_for_markdown e k w1 (origin_rel k (fst md))) = Inl ex \<longrightarrow>
        kb_sync_all e k w =
          (Inl ex, snd (kb_upsert_cards_for_markdown e k w1 (origin_rel k (fst md)))))"
proof -
  let ?docs = "list_markdown_files e k"
  have a: "read_origin k rel = Inl ex \<or> (\<exists>n. write_error k n = Some ex)"
    if "fst (kb_upsert_cards_for_markdown e k w0 rel) = Inl ex" for w0 rel ex
    using that by (rule kb_upsert_raises)
  have b: "s_ok res \<and> s_processed res = length ?docs \<and>
      map r_origin (s_results res) = map (\<lambda>md. origin_rel k (fst md)) ?docs"
    if "kb_sync_all e k w = (Inr res, w')" for res w'
  proof -
    obtain x w1 where sl: "sync_loop e k w ?docs [] = (x, w1)"
      by force
    with that obtain rs where rs: "x = Inr rs"
      and res: "res = \<lparr>s_ok = True, s_processed = length ?docs, s_results = rs\<rparr>"
      by (cases x) (auto simp: kb_sync_all_def Let_def)
    from sl rs have "sync_loop e k w ?docs [] = (Inr rs, w1)"
      by simp
    from sync_loop_results [OF this]
    have "map r_origin rs = map (\<lambda>md. origin_rel k (fst md)) ?docs"
      by simp
    with res show ?thesis by simp
  qed
  have d: "\<exists>res w'. kb_sync_all e k w = (Inr res, w')"
    if r: "\<forall>md\<in>set ?docs. \<exists>doc h. read_origin k (origin_rel k (fst md)) = Inr (doc, h)"
      and wr: "\<forall>n. write_error k n = None"
  proof -
    from sync_loop_ok [OF wr r, of e w "[]"]
    obtain rs w' where "sync_loop e k w ?docs [] = (Inr rs, w')"
      by blast
    then show ?thesis by (simp add: kb_sync_all_def Let_def)
  qed
  have f: "kb_sync_all e k w =
          (Inl ex, snd (kb_upsert_cards_for_markdown e k w1 (origin_rel k (fst md))))"
    if l: "?docs = pre @ md # rest"
      and p: "sync_loop e k w pre [] = (Inr rs, w1)"
      and u: "fst (kb_upsert_cards_for_markdown e k w1 (origin_rel k (fst md))) = Inl ex"
    for pre md rest rs w1 ex
  proof -
    obtain w2 where up: "kb_upsert_cards_for_markdown e k w1 (origin_rel k (fst md)) = (Inl ex, w2)"
      using u by (cases "kb_upsert_cards_for_markdown e k w1 (origin_rel k (fst md))") simp
    have "sync_loop e k w (pre @ md # rest) [] = (Inl ex, w2)"
      by (simp add: sync_loop_append p up)
    then show ?thesis
      by (simp add: kb_sync_all_def Let_def l up)
  qed
  from a b d f show ?thesis by blast
qed

lemma example_listing:
  "list_markdown_files fine_env example_kb =
     [([asc ''kb'', asc ''origins'', asc ''intro.md''], intro_file)]"
  by (simp add: list_markdown_files_def example_kb_def fine_env_def lower_basic_def
      markdown_exts_def name_suffix_def strict_prefix_def asc_def)

lemma example_origin_rel:
  "origin_rel example_kb [asc ''kb'', asc ''origins'', asc ''intro.md''] = intro_rel"
  by (simp add: origin_rel_def example_kb_def intro_rel_def)

lemma broken_first:
  "fst (kb_upsert_cards_for_markdown fine_env broken_kb empty_world
          (origin_rel broken_kb (fst ([asc ''kb'', asc ''origins'', asc ''a.md''], binary_file)))) =
     Inl (Exn ''UnicodeDecodeError'' (asc ''invalid start byte''))"
proof -
  have "read_origin broken_kb (origin_rel broken_kb [asc ''kb'', asc ''origins'', asc ''a.md'']) =
      Inl (Exn ''UnicodeDecodeError'' (asc ''invalid start byte''))"
    by (simp add: read_origin_def resolve_origin_def join_origin_def origin_rel_def
        path_parts_def is_absolute_def path_str_def broken_kb_def binary_file_def asc_def Let_def)
  then show ?thesis by (simp add: kb_upsert_failed)
qed

theorem sync_all_outcomes_witness:
  "list_markdown_files fine_env example_kb =
     [([asc ''kb'', asc ''origins'', asc ''intro.md''], intro_file)] \<and>
   read_origin example_kb
     (origin_rel example_kb (fst ([asc ''kb'', asc ''origins'', asc ''intro.md''], intro_file))) =
     Inr (intro_doc, intro_sha) \<and>
   (\<forall>n. write_error example_kb n = None) \<and>
   (\<exists>res w'. kb_sync_all fine_env example_kb empty_world = (Inr res, w') \<and>
      s_ok res \<and> s_processed res = 1 \<and> map r_origin (s_results res) = [intro_rel]) \<and>
   list_markdown_files fine_env broken_kb =
     [] @ ([asc ''kb'', asc ''origins'', asc ''a.md''], binary_file) #
     [([asc ''kb'', asc ''origins'', asc ''intro.md''], intro_file)] \<and>
   sync_loop fine_env broken_kb empty_world [] [] = (Inr [], empty_world) \<and>
   fst (kb_sync_all fine_env broken_kb empty_world) =
     Inl (Exn ''UnicodeDecodeError'' (asc ''invalid start byte'')) \<and>
   read_origin broken_kb (asc ''a.md'') =
     Inl (Exn ''UnicodeDecodeError'' (asc ''invalid start byte''))"
proof -
  have r: "\<forall>md\<in>set (list_markdown_files fine_env example_kb).
      \<exists>doc h. read_origin example_kb (origin_rel example_kb (fst md)) = Inr (doc, h)"
    by (simp add: example_listing example_origin_rel example_read_origin)
  have wr: "\<forall>n. write_error example_kb n = None"
    by (simp add: example_kb_def)
  note ex = sync_all_outcomes [of fine_env example_kb empty_world]
  from ex r wr obtain res w' where run: "kb_sync_all fine_env example_kb empty_world = (Inr res, w')"
    by blast
  with ex have "s_ok res \<and> s_processed res = length (list_markdown_files fine_env example_kb) \<and>
      map r_origin (s_results res) =
        map (\<lambda>md. origin_rel example_kb (fst md)) (list_markdown_files fine_env example_kb)"
    by blast
  then have good: "s_ok res \<and> s_processed res = 1 \<and> map r_origin (s_results res) = [intro_rel]"
    by (simp add: example_listing example_origin_rel)
  note br = sync_all_outcomes [of fine_env broken_kb empty_world]
  have l: "list_markdown_files fine_env broken_kb =
     [] @ ([asc ''kb'', asc ''origins'', asc ''a.md''], binary_file) #
     [([asc ''kb'', asc ''origins'', asc ''intro.md''], intro_file)]"
    by (simp add: broken_listing)
  have p: "sync_loop fine_env broken_kb empty_world [] [] = (Inr [], empty_world)"
    by simp
  from br l p broken_first
  have "kb_sync_all fine_env broken_kb empty_world =
      (Inl (Exn ''UnicodeDecodeError'' (asc ''invalid start byte'')),
       snd (kb_upsert_cards_for_markdown fine_env broken_kb empty_world
              (origin_rel broken_kb (fst ([asc ''kb'', asc ''origins'', asc ''a.md''], binary_file)))))"
    by blast
  then have bad: "fst (kb_sync_all fine_env broken_kb empty_world) =
     Inl (Exn ''UnicodeDecodeError'' (asc ''invalid start byte''))"
    by simp
  have o: "origin_rel broken_kb (fst ([asc ''kb'', asc ''origins'', asc ''a.md''], binary_file)) =
      asc ''a.md''"
    by (simp add: origin_rel_def broken_kb_def)
  from br broken_first
  have cause: "read_origin broken_kb (asc ''a.md'') =
      Inl (Exn ''UnicodeDecodeError'' (asc ''invalid start byte'')) \<or>
    (\<exists>n. write_error broken_kb n = Some (Exn ''UnicodeDecodeError'' (asc ''invalid start byte'')))"
    unfolding o by blast
  from run good
  have e1: "\<exists>res w'. kb_sync_all fine_env example_kb empty_world = (Inr res, w') \<and>
      s_ok res \<and> s_processed res = 1 \<and> map r_origin (s_results res) = [intro_rel]"
    by simp
  have nw: "\<not> (\<exists>n. write_error broken_kb n =
      Some (Exn ''UnicodeDecodeError'' (asc ''invalid start byte'')))"
    by (simp add: broken_kb_def)
  have cause': "read_origin broken_kb (asc ''a.md'') =
     Inl (Exn ''UnicodeDecodeError'' (asc ''invalid start byte''))"
  proof (rule disjE [OF cause])
    assume "read_origin broken_kb (asc ''a.md'') =
      Inl (Exn ''UnicodeDecodeError'' (asc ''invalid start byte''))"
    then show ?thesis .
  next
    assume "\<exists>n. write_error broken_kb n =
      Some (Exn ''UnicodeDecodeError'' (asc ''invalid start byte''))"
    with nw show ?thesis by (rule notE)
  qed
  have r': "read_origin example_kb
     (origin_rel example_kb (fst ([asc ''kb'', asc ''origins'', asc ''intro.md''], intro_file))) =
     Inr (intro_doc, intro_sha)"
    by (simp add: example_origin_rel example_read_origin)
  show ?thesis
    using example_listing r' wr e1 l p bad cause' by (intro conjI) assumption+
qed

section \<open>Coverage classification\<close>

lemma extract_sha_length:
  "extract_sha_from_md_card txt = Inr (Some s) \<Longrightarrow> 32 \<le> length s"
  by (auto simp: extract_sha_from_md_card_def Let_def split: option.splits list.splits if_splits)

lemma scan_step_good:
  "carries_fingerprint cur (name, content) \<Longrightarrow>
   scan_card_files rel cur ((name, content) # rest) = scan_card_files rel cur rest"
  by (auto simp: carries_fingerprint_def dest: extract_sha_length split: sum.splits)

lemma scan_step_bad:
  "\<not> carries_fingerprint cur (name, content) \<Longrightarrow>
   fst (scan_card_files rel cur ((name, content) # rest))"
  by (auto simp: carries_fingerprint_def split: sum.splits)

lemma scan_good_prefix:
  "\<forall>cf\<in>set good. carries_fingerprint cur cf \<Longrightarrow>
   scan_card_files rel cur (good @ cfs) = scan_card_files rel cur cfs"
proof (induction good)
  case Nil
  then show ?case by simp
next
  case (Cons cf good)
  obtain name content where cf: "cf = (name, content)" by (cases cf)
  from Cons show ?case by (simp add: cf scan_step_good del: scan_card_files.simps)
qed

lemma scan_bad_iff:
  "fst (scan_card_files rel cur cfs) \<longleftrightarrow> (\<exists>cf\<in>set cfs. \<not> carries_fingerprint cur cf)"
proof (induction cfs)
  case Nil
  then show ?case by simp
next
  case (Cons cf cfs)
  obtain name content where cf: "cf = (name, content)" by (cases cf)
  show ?case
  proof (cases "carries_fingerprint cur cf")
    case True
    with Cons show ?thesis by (simp add: cf scan_step_good del: scan_card_files.simps)
  next
    case False
    then show ?thesis using scan_step_bad [of cur name content rel cfs] by (auto simp: cf)
  qed
qed

lemma scan_all_good:
  "\<forall>cf\<in>set cfs. carries_fingerprint cur cf \<Longrightarrow> scan_card_files rel cur cfs = (False, [])"
  using scan_good_prefix [of cfs cur rel "[]"] by simp

lemma scan_unreadable:
  "\<forall>cf\<in>set good. carries_fingerprint cur cf \<Longrightarrow>
   scan_card_files rel cur (good @ (name, Inl ex) # rest) = (True, [invalid_entry rel name ex])"
  by (simp add: scan_good_prefix)

lemma coverage_loop_concat:
  "coverage_loop e k w s docs missing stale invalid =
     (missing @ concat (map (\<lambda>md. in_missing (classify_origin e k w s md)) docs),
      stale @ concat (map (\<lambda>md. in_stale (classify_origin e k w s md)) docs),
      invalid @ concat (map (\<lambda>md. in_invalid (classify_origin e k w s md)) docs))"
  by (induction docs arbitrary: missing stale invalid)
     (auto simp: in_missing_def in_stale_def in_invalid_def split: prod.splits)

lemma classify_unfold:
  "classify_origin e k w s md =
     (if matching_cards e k w md = [] then ([origin_rel k (fst md)], [], [])
      else if s
      then ([],
            if fst (scan_card_files (origin_rel k (fst md)) (o_sha256 (snd md))
                      (matching_cards e k w md))
            then [origin_rel k (fst md)] else [],
            snd (scan_card_files (origin_rel k (fst md)) (o_sha256 (snd md))
                   (matching_cards e k w md)))
      else ([], [], []))"
  by (simp add: classify_origin_def matching_cards_def Let_def split: prod.splits)

text \<open>
  Claim C5 (coverage classification). The three lists of the report are the
  classifications of the listed documents, one after the other, and for every document:
  with no matching card file it is in \<open>missing\<close> and nowhere else; with staleness
  checking on and at least one match it is not in \<open>missing\<close>, and it is in \<open>stale\<close>
  exactly when some matching card file does not carry the document's current digest
  (it cannot be read, or no token of at least 32 characters follows its last
  \<open>source_sha256:\<close>, or that token differs), so a missing fingerprint makes the
  document stale and never makes the analysis fail; a card file whose read raises, reached
  after card files that all carry the current digest, is recorded in \<open>invalid\<close> with
  the kind of the exception, and any matching card file that cannot be read puts the
  document in \<open>stale\<close>; a document all of whose matching card files carry the current
  digest is in none of the three lists, and so is a document with matches when staleness
  checking is off.
\<close>

theorem coverage_classification:
  "kb_analyze_coverage e k w s =
     \<lparr>origins_total = length (list_markdown_files e k),
      missing_cards_for_origins =
        concat (map (\<lambda>md. in_missing (classify_origin e k w s md)) (list_markdown_files e k)),
      stale_cards_for_origins =
        concat (map (\<lambda>md. in_stale (classify_origin e k w s md)) (list_markdown_files e k)),
      invalid_card_md_files =
        concat (map (\<lambda>md. in_invalid (classify_origin e k w s md)) (list_markdown_files e k))\<rparr> \<and>
   (\<forall>md.
      (matching_cards e k w md = [] \<longrightarrow>
         classify_origin e k w s md = ([origin_rel k (fst md)], [], [])) \<and>
      (matching_cards e k w md \<noteq> [] \<and> s \<longrightarrow>
         in_missing (classify_origin e k w s md) = [] \<and>
         in_stale (classify_origin e k w s md) =
           (if \<exists>cf\<in>set (matching_cards e k w md). \<not> carries_fingerprint (o_sha256 (snd md)) cf
            then [origin_rel k (fst md)] else [])) \<and>
      (\<forall>good name ex rest.
         s \<and> matching_cards e k w md = good @ (name, Inl ex) # rest \<and>
         (\<forall>cf\<in>set good. carries_fingerprint (o_sha256 (snd md)) cf) \<longrightarrow>
           in_invalid (classify_origin e k w s md) =
             [invalid_entry (origin_rel k (fst md)) name ex] \<and>
           in_stale (classify_origin e k w s md) = [origin_rel k (fst md)]) \<and>
      (\<forall>name ex.
         s \<and> (name, Inl ex) \<in> set (matching_cards e k w md) \<longrightarrow>
           in_stale (classify_origin e k w s md) = [origin_rel k (fst md)]) \<and>
      (matching_cards e k w md \<noteq> [] \<and>
       (\<forall>cf\<in>set (matching_cards e k w md). carries_fingerprint (o_sha256 (snd md)) cf) \<longrightarrow>
         classify_origin e k w s md = ([], [], [])) \<and>
      (matching_cards e k w md \<noteq> [] \<and> \<not> s \<longrightarrow>
         classify_origin e k w s md = ([], [], [])))"
proof -
  have total: "kb_analyze_coverage e k w s =
     \<lparr>origins_total = length (list_markdown_files e k),
      missing_cards_for_origins =
        concat (map (\<lambda>md. in_missing (classify_origin e k w s md)) (list_markdown_files e k)),
      stale_cards_for_origins =
        concat (map (\<lambda>md. in_stale (classify_origin e k w s md)) (list_markdown_files e k)),
      invalid_card_md_files =
        concat (map (\<lambda>md. in_invalid (classify_origin e k w s md)) (list_markdown_files e k))\<rparr>"
    by (simp add: kb_analyze_coverage_def coverage_loop_concat Let_def)
  have a: "classify_origin e k w s md = ([origin_rel k (fst md)], [], [])"
    if "matching_cards e k w md = []" for md
    using that by (simp add: classify_unfold)
  have b: "in_missing (classify_origin e k w s md) = [] \<and>
         in_stale (classify_origin e k w s md) =
           (if \<exists>cf\<in>set (matching_cards e k w md). \<not> carries_fingerprint (o_sha256 (snd md)) cf
            then [origin_rel k (fst md)] else [])"
    if "matching_cards e k w md \<noteq> []" "s" for md
    using that by (simp add: classify_unfold in_missing_def in_stale_def scan_bad_iff)
  have c: "in_invalid (classify_origin e k w s md) =
             [invalid_entry (origin_rel k (fst md)) name ex] \<and>
           in_stale (classify_origin e k w s md) = [origin_rel k (fst md)]"
    if "s" "matching_cards e k w md = good @ (name, Inl ex) # rest"
      "\<forall>cf\<in>set good. carries_fingerprint (o_sha256 (snd md)) cf" for md good name ex rest
    using that by (simp add: classify_unfold in_invalid_def in_stale_def scan_unreadable)
  have d: "in_stale (classify_origin e k w s md) = [origin_rel k (fst md)]"
    if "s" "(name, Inl ex) \<in> set (matching_cards e k w md)" for md name ex
  proof -
    have "\<not> carries_fingerprint (o_sha256 (snd md)) (name, Inl ex)"
      by (simp add: carries_fingerprint_def)
    with that(2)
    have "\<exists>cf\<in>set (matching_cards e k w md). \<not> carries_fingerprint (o_sha256 (snd md)) cf"
      by blast
    moreover from that(2) have "matching_cards e k w md \<noteq> []" by auto
    ultimately show ?thesis using b [of md] that(1) by simp
  qed
  have f: "classify_origin e k w s md = ([], [], [])"
    if "matching_cards e k w md \<noteq> []"
      "\<forall>cf\<in>set (matching_cards e k w md). carries_fingerprint (o_sha256 (snd md)) cf" for md
    using that by (simp add: classify_unfold scan_all_good)
  have g: "classify_origin e k w s md = ([], [], [])"
    if "matching_cards e k w md \<noteq> []" "\<not> s" for md
    using that by (simp add: classify_unfold)
  from total a b c d f g show ?thesis by blast
qed

lemma intro_md_facts:
  "origin_rel example_kb (fst intro_md) = intro_rel"
  "o_sha256 (snd intro_md) = intro_sha"
  "list_markdown_files fine_env example_kb = [intro_md]"
  by (simp_all add: intro_md_def example_origin_rel intro_file_def example_listing)

lemma intro_matching_empty: "matching_cards fine_env example_kb empty_world intro_md = []"
  by (simp add: matching_cards_def glob_cards_def empty_world_def)

lemma intro_pattern: "card_pattern (path_stem intro_rel) = asc ''card_*_intro.md''"
  by (simp add: card_pattern_def intro_stem asc_def)

lemma intro_matching_locked:
  "matching_cards fine_env example_kb locked_world intro_md =
     [(asc ''card_1_intro.md'', Inr current_card)] @
     (asc ''card_2_intro.md'', Inl (Exn ''PermissionError'' (asc ''denied''))) # []"
  unfolding matching_cards_def intro_md_facts glob_cards_def intro_pattern
  by (simp add: locked_world_def fine_env_def asc_def)

lemma intro_matching_fresh:
  "matching_cards fine_env example_kb fresh_world intro_md =
     [(asc ''card_1_intro.md'', Inr current_card)]"
  unfolding matching_cards_def intro_md_facts glob_cards_def intro_pattern
  by (simp add: fresh_world_def fine_env_def asc_def)

lemma current_card_sha: "extract_sha_from_md_card current_card = Inr (Some intro_sha)"
  by (simp add: extract_sha_from_md_card_def current_card_def sha_marker_def intro_sha_def
      Let_def eval_strings)

lemma current_card_carries: "carries_fingerprint intro_sha (n, Inr current_card)"
  by (simp add: carries_fingerprint_def current_card_sha)

theorem coverage_classification_witness:
  "matching_cards fine_env example_kb empty_world intro_md = [] \<and>
   kb_analyze_coverage fine_env example_kb empty_world True =
     \<lparr>origins_total = 1, missing_cards_for_origins = [intro_rel],
      stale_cards_for_origins = [], invalid_card_md_files = []\<rparr> \<and>
   matching_cards fine_env example_kb locked_world intro_md =
     [(asc ''card_1_intro.md'', Inr current_card)] @
     (asc ''card_2_intro.md'', Inl (Exn ''PermissionError'' (asc ''denied''))) # [] \<and>
   carries_fingerprint (o_sha256 (snd intro_md)) (asc ''card_1_intro.md'', Inr current_card) \<and>
   kb_analyze_coverage fine_env example_kb locked_world True =
     \<lparr>origins_total = 1, missing_cards_for_origins = [],
      stale_cards_for_origins = [intro_rel],
      invalid_card_md_files =
        [invalid_entry intro_rel (asc ''card_2_intro.md'')
           (Exn ''PermissionError'' (asc ''denied''))]\<rparr> \<and>
   matching_cards fine_env example_kb fresh_world intro_md =
     [(asc ''card_1_intro.md'', Inr current_card)] \<and>
   kb_analyze_coverage fine_env example_kb fresh_world True =
     \<lparr>origins_total = 1, missing_cards_for_origins = [],
      stale_cards_for_origins = [], invalid_card_md_files = []\<rparr> \<and>
   kb_analyze_coverage fine_env example_kb locked_world False =
     \<lparr>origins_total = 1, missing_cards_for_origins = [],
      stale_cards_for_origins = [], invalid_card_md_files = []\<rparr>"
proof -
  note em = coverage_classification [of fine_env example_kb empty_world True]
  note lo = coverage_classification [of fine_env example_kb locked_world True]
  note fr = coverage_classification [of fine_env example_kb fresh_world True]
  note off = coverage_classification [of fine_env example_kb locked_world False]
  have g: "\<forall>cf\<in>set [(asc ''card_1_intro.md'', Inr current_card)].
      carries_fingerprint (o_sha256 (snd intro_md)) cf"
    by (simp add: intro_md_facts current_card_carries)
  have gf: "\<forall>cf\<in>set (matching_cards fine_env example_kb fresh_world intro_md).
      carries_fingerprint (o_sha256 (snd intro_md)) cf"
    by (simp add: intro_matching_fresh intro_md_facts current_card_carries)
  have nf: "matching_cards fine_env example_kb fresh_world intro_md \<noteq> []"
    by (simp add: intro_matching_fresh)
  have nl: "matching_cards fine_env example_kb locked_world intro_md \<noteq> []"
    by (simp add: intro_matching_locked)
  from em [THEN conjunct2, THEN spec, of intro_md] intro_matching_empty
  have c1: "classify_origin fine_env example_kb empty_world True intro_md = ([intro_rel], [], [])"
    by (simp add: intro_md_facts)
  note lo_md = lo [THEN conjunct2, THEN spec [where x = intro_md]]
  from lo_md [THEN conjunct2, THEN conjunct1] nl
  have c2a: "in_missing (classify_origin fine_env example_kb locked_world True intro_md) = []"
    by simp
  have "True \<and>
     matching_cards fine_env example_kb locked_world intro_md =
       [(asc ''card_1_intro.md'', Inr current_card)] @
       (asc ''card_2_intro.md'', Inl (Exn ''PermissionError'' (asc ''denied''))) # [] \<and>
     (\<forall>cf\<in>set [(asc ''card_1_intro.md'', Inr current_card)].
        carries_fingerprint (o_sha256 (snd intro_md)) cf)"
    using intro_matching_locked g by (intro conjI TrueI) assumption+
  from lo_md [THEN conjunct2, THEN conjunct2, THEN conjunct1,
      THEN spec [where x = "[(asc ''card_1_intro.md'', Inr current_card)]"],
      THEN spec [where x = "asc ''card_2_intro.md''"],
      THEN spec [where x = "Exn ''PermissionError'' (asc ''denied'')"],
      THEN spec [where x = "[]"], THEN mp, OF this]
  have c2b: "in_invalid (classify_origin fine_env example_kb locked_world True intro_md) =
       [invalid_entry intro_rel (asc ''card_2_intro.md'') (Exn ''PermissionError'' (asc ''denied''))]"
    "in_stale (classify_origin fine_env example_kb locked_world True intro_md) = [intro_rel]"
    by (simp_all add: intro_md_facts)
  note c2 = c2a c2b
  from fr [THEN conjunct2, THEN spec, of intro_md] nf gf
  have c3: "classify_origin fine_env example_kb fresh_world True intro_md = ([], [], [])"
    by blast
  from off [THEN conjunct2, THEN spec, of intro_md] nl
  have c4: "classify_origin fine_env example_kb locked_world False intro_md = ([], [], [])"
    by blast
  have r1: "kb_analyze_coverage fine_env example_kb empty_world True =
     \<lparr>origins_total = 1, missing_cards_for_origins = [intro_rel],
      stale_cards_for_origins = [], invalid_card_md_files = []\<rparr>"
    using em [THEN conjunct1]
    by (simp add: intro_md_facts c1 in_missing_def in_stale_def in_invalid_def)
  have r2: "kb_analyze_coverage fine_env example_kb locked_world True =
     \<lparr>origins_total = 1, missing_cards_for_origins = [],
      stale_cards_for_origins = [intro_rel],
      invalid_card_md_files =
        [invalid_entry intro_rel (asc ''card_2_intro.md'')
           (Exn ''PermissionError'' (asc ''denied''))]\<rparr>"
    using lo [THEN conjunct1] by (simp add: intro_md_facts c2)
  have r3: "kb_analyze_coverage fine_env example_kb fresh_world True =
     \<lparr>origins_total = 1, missing_cards_for_origins = [],
      stale_cards_for_origins = [], invalid_card_md_files = []\<rparr>"
    using fr [THEN conjunct1]
    by (simp add: intro_md_facts c3 in_missing_def in_stale_def in_invalid_def)
  have r4: "kb_analyze_coverage fine_env example_kb locked_world False =
     \<lparr>origins_total = 1, missing_cards_for_origins = [],
      stale_cards_for_origins = [], invalid_card_md_files = []\<rparr>"
    using off [THEN conjunct1]
    by (simp add: intro_md_facts c4 in_missing_def in_stale_def in_invalid_def)
  have g1: "carries_fingerprint (o_sha256 (snd intro_md))
      (asc ''card_1_intro.md'', Inr current_card)"
    by (simp add: intro_md_facts current_card_carries)
  show ?thesis
    using intro_matching_empty r1 intro_matching_locked g1 r2 intro_matching_fresh r3 r4
    by (intro conjI) assumption+
qed

section \<open>Path containment\<close>

text \<open>
  One half of the containment holds: a path that resolves into the origins directory,
  component by component, is never rejected, so every rejected path lies outside it.
\<close>

lemma path_str_prefix: "prefix ps qs \<Longrightarrow> prefix (path_str ps) (path_str qs)"
proof -
  assume "prefix ps qs"
  then obtain rs where qs: "qs = ps @ rs" by (auto simp: prefix_def)
  show ?thesis
  proof (cases ps)
    case Nil
    then show ?thesis by (cases qs) (simp_all add: path_str_def)
  next
    case (Cons p ps')
    then show ?thesis by (simp add: path_str_def qs)
  qed
qed

lemma inside_is_accepted:
  "prefix (resolve_parts [] (origins_dir k)) (resolve_parts [] (join_origin k rel)) \<Longrightarrow>
   resolve_origin k rel = Inr (resolve_parts [] (join_origin k rel))"
  by (simp add: resolve_origin_def Let_def path_str_prefix)

text \<open>
  Claim C9 (path containment) fails on the code. \<open>_resolve_origin\<close> compares the
  two paths as strings: \<open>/kb/origins_old/secret.md\<close> starts with \<open>/kb/origins\<close>,
  so the relative path \<open>../origins_old/secret.md\<close>, which resolves outside the origins
  directory, is accepted, and \<open>kb_read_markdown\<close> returns the content of that file.
\<close>

theorem path_escape_accepted:
  "resolve_origin sibling_kb escaping_path =
     Inr [asc ''kb'', asc ''origins_old'', asc ''secret.md''] \<and>
   \<not> prefix (origins_dir sibling_kb) [asc ''kb'', asc ''origins_old'', asc ''secret.md''] \<and>
   kb_read_markdown sibling_kb escaping_path 12000 = Inr (asc ''top secret'')"
  by (simp add: kb_read_markdown_def read_origin_def resolve_origin_def join_origin_def
      path_parts_def is_absolute_def path_str_def sibling_kb_def escaping_path_def
      secret_file_def intro_file_def asc_def Let_def)


end
